theory Spec2Isabelle
  imports Complex_Main "HOL-Library.Multiset"
begin

section \<open>The browser platform\<close>

text \<open>
  The session layer of the frontend (\<^verbatim>\<open>lib/api.ts\<close>, \<^verbatim>\<open>contexts/AuthContext.tsx\<close>,
  \<^verbatim>\<open>lib/error-utils.ts\<close>) calls a few functions of the browser: \<^verbatim>\<open>atob\<close>,
  \<^verbatim>\<open>String.prototype.split\<close>, \<^verbatim>\<open>JSON.parse\<close>, \<^verbatim>\<open>JSON.stringify\<close>, the timers and
  \<^verbatim>\<open>localStorage\<close>. \<^verbatim>\<open>atob\<close> and \<^verbatim>\<open>split\<close> are written out; the JSON functions are
  parameters (a record \<open>platform\<close>), so that every theorem holds whatever they return.
\<close>

subsection \<open>Numbers\<close>

text \<open>
  A JavaScript number is a double (IEEE 754 binary64) or \<open>NaN\<close>. A double is kept as the
  real number it stands for, and every arithmetic operation of the code rounds its exact
  result to the nearest double, a tie going to the double with the even significand.
  \<open>round_to u x\<close> is that rounding of \<open>x\<close> to the multiples of \<open>u\<close>; \<open>ulp x\<close> is the distance
  between the doubles of the binade of \<open>x\<close>, which have 53 significant bits. The range of
  the exponent is not bounded: overflow to an infinity and the subnormal numbers are left
  out. The clock and the constants of the code are far from both; where a number comes
  from a token, the statements below bound it.
\<close>

definition round_to :: "real \<Rightarrow> real \<Rightarrow> real" where
  "round_to u x =
     (let q = x / u; n = \<lfloor>q\<rfloor> in
      if q - of_int n < 1 / 2 then of_int n * u
      else if q - of_int n > 1 / 2 then of_int (n + 1) * u
      else if even n then of_int n * u else of_int (n + 1) * u)"

definition ulp :: "real \<Rightarrow> real" where
  "ulp x = 2 powr of_int (\<lfloor>log 2 \<bar>x\<bar>\<rfloor> - 52)"

definition binary64 :: "real \<Rightarrow> real" where
  "binary64 x = (if x = 0 then 0 else round_to (ulp x) x)"

datatype number = NaN | Num real

fun js_mul :: "number \<Rightarrow> number \<Rightarrow> number" where
  "js_mul (Num a) (Num b) = Num (binary64 (a * b))"
| "js_mul _ _ = NaN"

fun js_sub :: "number \<Rightarrow> number \<Rightarrow> number" where
  "js_sub (Num a) (Num b) = Num (binary64 (a - b))"
| "js_sub _ _ = NaN"

text \<open>\<^verbatim>\<open>a < b\<close> and \<^verbatim>\<open>a > b\<close> on numbers: false as soon as one side is \<open>NaN\<close>.\<close>

fun js_less :: "number \<Rightarrow> number \<Rightarrow> bool" where
  "js_less (Num a) (Num b) = (a < b)"
| "js_less _ _ = False"

fun js_greater :: "number \<Rightarrow> number \<Rightarrow> bool" where
  "js_greater (Num a) (Num b) = (a > b)"
| "js_greater _ _ = False"

text \<open>\<^verbatim>\<open>Math.max(a, b)\<close>: \<open>NaN\<close> as soon as one argument is \<open>NaN\<close>.\<close>

fun Math_max :: "number \<Rightarrow> number \<Rightarrow> number" where
  "Math_max (Num a) (Num b) = Num (max a b)"
| "Math_max _ _ = NaN"

text \<open>Truthiness of a number: \<open>0\<close> and \<open>NaN\<close> are falsy.\<close>

fun truthy_number :: "number \<Rightarrow> bool" where
  "truthy_number NaN = False"
| "truthy_number (Num a) = (a \<noteq> 0)"

subsection \<open>JSON values\<close>

datatype json =
    JNull
  | JBool bool
  | JNum real
  | JStr string
  | JArr "json list"
  | JObj "(string \<times> json) list"

datatype jsval = Undefined | Val json

record platform =
  JSON_parse :: "string \<Rightarrow> json option"
  JSON_stringify :: "json \<Rightarrow> string"
  ToNumber_object :: "json \<Rightarrow> number"

text \<open>
  \<open>JSON_parse P s = None\<close> is the \<^verbatim>\<open>SyntaxError\<close> of \<^verbatim>\<open>JSON.parse\<close>. A number of a
  parsed value is the double that \<^verbatim>\<open>JSON.parse\<close> made of the digits.
  \<open>ToNumber_object P v\<close> is the number that a string, an array or an object converts
  to (\<^verbatim>\<open>ToNumber(ToPrimitive(v))\<close>).

  \<open>get_prop v k\<close> is the property read \<^verbatim>\<open>v.k\<close> on a parsed value: a \<^verbatim>\<open>TypeError\<close>
  (\<open>None\<close>) on \<^verbatim>\<open>null\<close>, the member of an object, \<^verbatim>\<open>undefined\<close> otherwise.
\<close>

fun get_prop :: "json \<Rightarrow> string \<Rightarrow> jsval option" where
  "get_prop JNull k = None"
| "get_prop (JObj kvs) k = Some (case map_of kvs k of None \<Rightarrow> Undefined | Some v \<Rightarrow> Val v)"
| "get_prop _ k = Some Undefined"

fun ToNumber :: "platform \<Rightarrow> jsval \<Rightarrow> number" where
  "ToNumber P Undefined = NaN"
| "ToNumber P (Val JNull) = Num 0"
| "ToNumber P (Val (JBool b)) = Num (if b then 1 else 0)"
| "ToNumber P (Val (JNum x)) = Num x"
| "ToNumber P (Val v) = ToNumber_object P v"

subsection \<open>\<^verbatim>\<open>atob\<close> and \<^verbatim>\<open>split\<close>\<close>

text \<open>The value of a character in the alphabet \<^verbatim>\<open>A-Z a-z 0-9 + /\<close> of base64.\<close>

definition base64_value :: "char \<Rightarrow> nat option" where
  "base64_value c =
     (let n = (of_char c :: nat) in
      if 65 \<le> n \<and> n \<le> 90 then Some (n - 65)
      else if 97 \<le> n \<and> n \<le> 122 then Some (n - 71)
      else if 48 \<le> n \<and> n \<le> 57 then Some (n + 4)
      else if c = CHR ''+'' then Some 62
      else if c = CHR ''/'' then Some 63
      else None)"

fun sextets :: "(char \<Rightarrow> nat option) \<Rightarrow> string \<Rightarrow> nat list option" where
  "sextets val [] = Some []"
| "sextets val (c # cs) =
     (case val c of
        None \<Rightarrow> None
      | Some d \<Rightarrow> map_option ((#) d) (sextets val cs))"

text \<open>Four sextets give three bytes; a rest of three gives two bytes, a rest of two one.\<close>

fun sextets_bytes :: "nat list \<Rightarrow> string" where
  "sextets_bytes (a # b # c # d # r) =
     char_of (a * 4 + b div 16) # char_of (b * 16 + c div 4) # char_of (c * 64 + d)
       # sextets_bytes r"
| "sextets_bytes [a, b, c] = [char_of (a * 4 + b div 16), char_of (b * 16 + c div 4)]"
| "sextets_bytes [a, b] = [char_of (a * 4 + b div 16)]"
| "sextets_bytes _ = []"

definition ascii_whitespace :: "char \<Rightarrow> bool" where
  "ascii_whitespace c = ((of_char c :: nat) \<in> {9, 10, 12, 13, 32})"

definition strip_padding :: "string \<Rightarrow> string" where
  "strip_padding s =
     (if length s mod 4 = 0 then
        (if 2 \<le> length s \<and> drop (length s - 2) s = ''=='' then take (length s - 2) s
         else if 1 \<le> length s \<and> drop (length s - 1) s = ''='' then take (length s - 1) s
         else s)
      else s)"

text \<open>
  \<^verbatim>\<open>atob\<close> (the forgiving-base64 decode of the HTML standard): white space is dropped,
  one or two trailing \<^verbatim>\<open>=\<close> are dropped when the length is a multiple of four, a length
  of \<open>1\<close> modulo \<open>4\<close> and every character outside the alphabet \<^verbatim>\<open>A-Za-z0-9+/\<close> throw
  (\<open>None\<close>).
\<close>

definition atob :: "string \<Rightarrow> string option" where
  "atob data =
     (let s = strip_padding (filter (\<lambda>c. \<not> ascii_whitespace c) data) in
      if length s mod 4 = 1 then None
      else map_option sextets_bytes (sextets base64_value s))"

text \<open>\<^verbatim>\<open>s.split('.')\<close>: the pieces between the dots, at least one piece.\<close>

fun split_dot :: "string \<Rightarrow> string list" where
  "split_dot [] = [[]]"
| "split_dot (c # cs) =
     (if c = CHR ''.'' then [] # split_dot cs
      else (case split_dot cs of w # ws \<Rightarrow> (c # w) # ws | [] \<Rightarrow> [[c]]))"

text \<open>
  \<^verbatim>\<open>token.split('.')[1]\<close> as the argument of \<^verbatim>\<open>atob\<close>: a token with no dot gives
  \<^verbatim>\<open>undefined\<close>, which \<^verbatim>\<open>atob\<close> reads as the string \<^verbatim>\<open>"undefined"\<close>.
\<close>

definition payload_segment :: "string \<Rightarrow> string" where
  "payload_segment token =
     (case split_dot token of _ # seg # _ \<Rightarrow> seg | _ \<Rightarrow> ''undefined'')"

text \<open>
  \<^verbatim>\<open>JSON.parse(atob(token.split('.')[1]))\<close>, the expression that the three token helpers
  share; \<open>None\<close> when \<^verbatim>\<open>atob\<close> or \<^verbatim>\<open>JSON.parse\<close> throws.
\<close>

definition parse_payload :: "platform \<Rightarrow> string \<Rightarrow> json option" where
  "parse_payload P token =
     (case atob (payload_segment token) of
        None \<Rightarrow> None
      | Some text \<Rightarrow> JSON_parse P text)"

section \<open>Expiry of a token\<close>

text \<open>
  \<^verbatim>\<open>isTokenExpired\<close> of \<^verbatim>\<open>lib/api.ts\<close>. \<open>now\<close> is the reading of \<^verbatim>\<open>Date.now()\<close>, in
  milliseconds. Every exception of the \<^verbatim>\<open>try\<close> block gives \<^verbatim>\<open>true\<close>. The division and the
  addition are those of doubles.
\<close>

definition isTokenExpired :: "platform \<Rightarrow> int \<Rightarrow> string \<Rightarrow> bool" where
  "isTokenExpired P now token =
     (case parse_payload P token of
        None \<Rightarrow> True
      | Some payload \<Rightarrow>
          (case get_prop payload ''exp'' of
             None \<Rightarrow> True
           | Some e \<Rightarrow>
               (let currentTime = binary64 (real_of_int now / 1000)
                in js_less (ToNumber P e) (Num (binary64 (currentTime + 30))))))"

text \<open>\<^verbatim>\<open>isTokenExpired\<close> of \<^verbatim>\<open>contexts/AuthContext.tsx\<close>.\<close>

definition isTokenExpired_ctx :: "platform \<Rightarrow> int \<Rightarrow> string \<Rightarrow> bool" where
  "isTokenExpired_ctx P now token =
     (case parse_payload P token of
        None \<Rightarrow> True
      | Some payload \<Rightarrow>
          (case get_prop payload ''exp'' of
             None \<Rightarrow> True
           | Some e \<Rightarrow>
               (let currentTime = binary64 (real_of_int now / 1000)
                in js_less (ToNumber P e) (Num (binary64 (currentTime + 30))))))"

text \<open>
  \<^verbatim>\<open>getTokenExpiration\<close>: the expiry in milliseconds, \<^verbatim>\<open>null\<close> (\<open>None\<close>) when the
  \<^verbatim>\<open>try\<close> block throws.
\<close>

definition getTokenExpiration :: "platform \<Rightarrow> string \<Rightarrow> number option" where
  "getTokenExpiration P token =
     (case parse_payload P token of
        None \<Rightarrow> None
      | Some payload \<Rightarrow>
          (case get_prop payload ''exp'' of
             None \<Rightarrow> None
           | Some e \<Rightarrow> Some (js_mul (ToNumber P e) (Num 1000))))"

section \<open>Retry policy\<close>

text \<open>
  \<^verbatim>\<open>lib/error-utils.ts\<close>. An \<^verbatim>\<open>AxiosError\<close> carries the response, when one was
  received, and the \<^verbatim>\<open>code\<close>, \<^verbatim>\<open>message\<close> and \<^verbatim>\<open>name\<close> that axios or the browser set.
\<close>

record axios_response =
  status :: int

record axios_error =
  response :: "axios_response option"
  code :: "string option"
  message :: string
  name :: string

definition isNetworkError :: "axios_error \<Rightarrow> bool" where
  "isNetworkError error =
     (response error = None \<and>
      (code error = Some ''NETWORK_ERROR'' \<or>
       message error = ''Network Error'' \<or>
       name error = ''NetworkError'' \<or>
       code error = Some ''ECONNABORTED''))"

text \<open>\<^verbatim>\<open>error.response?.status\<close>\<close>

definition response_status :: "axios_error \<Rightarrow> int option" where
  "response_status error = map_option status (response error)"

definition shouldRetryError :: "axios_error \<Rightarrow> nat \<Rightarrow> bool" where
  "shouldRetryError error retryCount =
     (let maxRetries = 3 in
      if retryCount \<ge> maxRetries then False
      else if (case response_status error of
                 None \<Rightarrow> False
               | Some st \<Rightarrow> st \<noteq> 0 \<and> st \<ge> 400 \<and> st < 500)
      then response_status error = Some 408 \<or> response_status error = Some 429
      else isNetworkError error \<or>
           (case response_status error of None \<Rightarrow> False | Some st \<Rightarrow> st \<ge> 500))"

text \<open>
  \<^verbatim>\<open>getRetryDelay\<close>. \<open>random\<close> is the value that \<^verbatim>\<open>Math.random()\<close> returns in this
  call, a double of the interval \<open>[0, 1)\<close>. Every operation rounds to a double.
  \<^verbatim>\<open>Math.pow(2, retryCount)\<close> is exact, and so is its product with 1000; from a
  \<open>retryCount\<close> of 1015 on the code has an infinity there, whose minimum with \<open>maxDelay\<close>
  is \<open>maxDelay\<close> as well.
\<close>

definition getRetryDelay :: "real \<Rightarrow> nat \<Rightarrow> real" where
  "getRetryDelay random retryCount =
     (let baseDelay = 1000;
          maxDelay = 10000;
          delay = min (binary64 (baseDelay * binary64 (2 ^ retryCount))) maxDelay
      in binary64 (delay + binary64 (random * 1000)))"

text \<open>
  \<^verbatim>\<open>retryAsync\<close>. \<open>operation i\<close> is what the call of \<^verbatim>\<open>operation()\<close> in round \<open>i\<close> of the loop
  gives, the error thrown or the value; \<open>random i\<close> is the draw of \<^verbatim>\<open>Math.random()\<close> in that
  round. The result is what the function throws or returns, with the delays it has
  passed to \<^verbatim>\<open>setTimeout\<close>. \<open>lastError\<close> is \<^verbatim>\<open>undefined\<close> (\<open>None\<close>) until an error is
  caught.
\<close>

function retryAsync_from ::
  "(nat \<Rightarrow> 'e + 'a) \<Rightarrow> nat \<Rightarrow> ('e \<Rightarrow> nat \<Rightarrow> bool) \<Rightarrow> (nat \<Rightarrow> real) \<Rightarrow> nat \<Rightarrow> 'e option
     \<Rightarrow> ('e option + 'a) \<times> real list" where
  "retryAsync_from operation maxRetries shouldRetry random i lastError =
     (if i \<le> maxRetries then
        (case operation i of
           Inr v \<Rightarrow> (Inr v, [])
         | Inl error \<Rightarrow>
             if i = maxRetries \<or> \<not> shouldRetry error i then (Inl (Some error), [])
             else
               (let delay = getRetryDelay (random i) i
                in case retryAsync_from operation maxRetries shouldRetry random (Suc i)
                          (Some error) of
                     (result, delays) \<Rightarrow> (result, delay # delays)))
      else (Inl lastError, []))"
  by pat_completeness auto
termination
  by (relation "measure (\<lambda>(operation, maxRetries, shouldRetry, random, i, lastError).
        Suc maxRetries - i)") auto

declare retryAsync_from.simps [simp del]

definition retryAsync ::
  "(nat \<Rightarrow> 'e + 'a) \<Rightarrow> nat \<Rightarrow> ('e \<Rightarrow> nat \<Rightarrow> bool) \<Rightarrow> (nat \<Rightarrow> real)
     \<Rightarrow> ('e option + 'a) \<times> real list" where
  "retryAsync operation maxRetries shouldRetry random =
     retryAsync_from operation maxRetries shouldRetry random 0 None"

section \<open>The API client\<close>

text \<open>
  \<^verbatim>\<open>lib/api.ts\<close>. JavaScript runs one task at a time, so the module is a state machine:
  a step is the code that runs between two suspension points. The state holds the two
  module variables \<^verbatim>\<open>isRefreshing\<close> and \<^verbatim>\<open>failedQueue\<close>, the store, the request
  configurations (one per call of the application, named by a number) and logs of what
  the module did to the outside: requests handed to the network, refresh requests posted,
  events dispatched on \<^verbatim>\<open>window\<close>, promises of the application settled. A step takes in the
  promise jobs that its code leaves behind: the platform runs them before it turns to the
  next response.
\<close>

record browser =
  localStorage :: "string \<Rightarrow> string option"

type_synonym call = nat

datatype js_error = AxiosError axios_error | Error string

datatype custom_event =
    NetworkErrorEvent js_error
  | ApiErrorEvent js_error "string option"
  | AuthLogoutEvent

datatype settlement = Resolve "string option" | Reject js_error

datatype outcome = Fulfilled | Rejected js_error

text \<open>
  \<^item> \<open>retry s c\<close>, \<open>authorization s c\<close>, \<open>url s c\<close>: the fields \<^verbatim>\<open>_retry\<close>,
    \<^verbatim>\<open>headers.Authorization\<close> and \<^verbatim>\<open>url\<close> of the configuration \<open>c\<close>;
  \<^item> \<open>failedQueue s\<close>: an entry \<^verbatim>\<open>{resolve, reject}\<close> is named by the call whose promise it
    settles;
  \<^item> \<open>wrappers s c\<close>: how many \<^verbatim>\<open>.catch(err => handleApiError(err, 'Token refresh failed'))\<close>
    of the queueing branch stand between the current attempt of \<open>c\<close> and the application;
  \<^item> \<open>inflight s\<close>: the calls whose request is with the network;
  \<^item> \<open>awaiting s\<close>: the handlers suspended at \<^verbatim>\<open>await axios.post(.../auth/refresh)\<close>, each
    named by its call;
  \<^item> \<open>sent s\<close>: every request handed to the network by \<^verbatim>\<open>apiClient\<close>, with its
    \<^verbatim>\<open>Authorization\<close> header; \<open>refreshPosts s\<close>: the header of every refresh request
    posted by the 401 handler;
  \<^item> \<open>settlements s\<close>: every call of \<^verbatim>\<open>resolve\<close> or \<^verbatim>\<open>reject\<close> of a queue entry, in the
    order in which \<^verbatim>\<open>processQueue\<close> made them;
  \<^item> \<open>settled s\<close>: every promise that \<^verbatim>\<open>apiClient\<close> returned to the application and that
    has been fulfilled or rejected, in the order in which that happened.
\<close>

record api_state = browser +
  isRefreshing :: bool
  failedQueue :: "call list"
  retry :: "call \<Rightarrow> bool"
  authorization :: "call \<Rightarrow> string option"
  url :: "call \<Rightarrow> string"
  wrappers :: "call \<Rightarrow> nat"
  known :: "call list"
  inflight :: "call list"
  awaiting :: "call list"
  sent :: "(call \<times> string option) list"
  refreshPosts :: "string list"
  dispatched :: "custom_event list"
  settlements :: "(call \<times> settlement) list"
  settled :: "(call \<times> outcome) list"

definition initial_api :: "(string \<Rightarrow> string option) \<Rightarrow> api_state" where
  "initial_api store =
     \<lparr> localStorage = store, isRefreshing = False, failedQueue = [],
       retry = (\<lambda>c. False), authorization = (\<lambda>c. None), url = (\<lambda>c. []),
       wrappers = (\<lambda>c. 0), known = [], inflight = [], awaiting = [], sent = [],
       refreshPosts = [], dispatched = [], settlements = [], settled = [] \<rparr>"

text \<open>
  \<^verbatim>\<open>handleApiError\<close> dispatches \<^verbatim>\<open>api:error\<close> and returns a rejected promise; the
  rejection is what the caller of \<open>handleApiError\<close> does with it.
\<close>

definition handleApiError :: "js_error \<Rightarrow> string option \<Rightarrow> api_state \<Rightarrow> api_state" where
  "handleApiError error context s =
     s\<lparr>dispatched := dispatched s @ [ApiErrorEvent error context]\<rparr>"

text \<open>
  A rejection on its way to the application. A settled promise hands its value on in
  promise jobs; the platform runs them one at a time in the order in which they were
  queued, and each job of a chain queues the next one behind the jobs that wait. The
  code makes chains of two shapes.

  \<^item> The handler, an \<^verbatim>\<open>async\<close> function, returns the rejected promise of
    \<^verbatim>\<open>handleApiError\<close>: one job takes that promise up for the promise of the handler
    (\<open>AdoptRejected\<close>), the next rejects the promise of the handler (\<open>RejectHandler\<close>),
    the next rejects the promise of the request, the one that \<^verbatim>\<open>apiClient(...)\<close> returned
    (\<open>RejectRequest\<close>).
  \<^item> An entry of the queue is rejected: the promise of \<^verbatim>\<open>.then(token => ...)\<close>, which
    has no handler for a rejection, is rejected (\<open>RejectThen\<close>); the handler of
    \<^verbatim>\<open>.catch\<close> runs \<^verbatim>\<open>handleApiError(err, 'Token refresh failed')\<close> and returns its rejected
    promise (\<open>RunCatch\<close>); a job takes that promise up (\<open>AdoptRejected\<close>); the promise of
    \<^verbatim>\<open>.catch\<close> is rejected (\<open>RejectCatch\<close>); then the promise of the handler, which had
    returned the promise of \<^verbatim>\<open>.catch\<close>, and the promise of the request.

  The request of a replayed call was started by the \<^verbatim>\<open>.then\<close> callback of the queueing
  branch, whose promise follows the promise of that request: when the latter is rejected
  the rejection goes through the same six jobs once more, one round for each of the
  \<open>wrappers s c\<close>. The jobs inside axios are the same for every request and are left out.
  The last job of a chain rejects the promise that the application holds.
\<close>

datatype hop =
    RejectThen
  | RunCatch
  | AdoptRejected
  | RejectCatch
  | RejectHandler
  | RejectRequest

definition wrapper_hops :: "hop list" where
  "wrapper_hops = [RejectThen, RunCatch, AdoptRejected, RejectCatch, RejectHandler, RejectRequest]"

definition handler_hops :: "hop list" where
  "handler_hops = [AdoptRejected, RejectHandler, RejectRequest]"

definition outer_hops :: "nat \<Rightarrow> hop list" where
  "outer_hops n = concat (replicate n wrapper_hops)"

text \<open>The one job that does something to the state is the handler of \<^verbatim>\<open>.catch\<close>.\<close>

definition run_hop :: "hop \<Rightarrow> js_error \<Rightarrow> api_state \<Rightarrow> api_state" where
  "run_hop h error s =
     (case h of
        RunCatch \<Rightarrow> handleApiError error (Some ''Token refresh failed'') s
      | _ \<Rightarrow> s)"

definition deliver_rejection :: "call \<Rightarrow> js_error \<Rightarrow> api_state \<Rightarrow> api_state" where
  "deliver_rejection c error s =
     s\<lparr>wrappers := (wrappers s)(c := 0), settled := settled s @ [(c, Rejected error)]\<rparr>"

text \<open>
  A job is a rejection with the hops it still has to make. \<open>microtasks jobs s\<close> runs the
  queue of jobs until it is empty.
\<close>

type_synonym job = "call \<times> js_error \<times> hop list"

function microtasks :: "job list \<Rightarrow> api_state \<Rightarrow> api_state" where
  "microtasks [] s = s"
| "microtasks ((c, error, []) # jobs) s = microtasks jobs (deliver_rejection c error s)"
| "microtasks ((c, error, [h]) # jobs) s =
     microtasks jobs (deliver_rejection c error (run_hop h error s))"
| "microtasks ((c, error, h # h' # hs) # jobs) s =
     microtasks (jobs @ [(c, error, h' # hs)]) (run_hop h error s)"
  by pat_completeness auto
termination
  by (relation "measure (\<lambda>(jobs, s). sum_list (map (\<lambda>(c, error, hs). Suc (length hs)) jobs))")
    auto

text \<open>
  The handler of the current attempt of \<open>c\<close> returns the rejected promise of
  \<^verbatim>\<open>handleApiError\<close>, and nothing else is on its way.
\<close>

definition reject_to_application :: "call \<Rightarrow> js_error \<Rightarrow> api_state \<Rightarrow> api_state" where
  "reject_to_application c error s =
     microtasks [(c, error, handler_hops @ outer_hops (wrappers s c))] s"

text \<open>The request interceptor: the stored token is attached when it has not expired.\<close>

definition request_interceptor :: "platform \<Rightarrow> int \<Rightarrow> call \<Rightarrow> api_state \<Rightarrow> api_state" where
  "request_interceptor P now c s =
     (case localStorage s ''token'' of
        None \<Rightarrow> s
      | Some token \<Rightarrow>
          if token \<noteq> [] \<and> \<not> isTokenExpired P now token
          then s\<lparr>authorization := (authorization s)(c := Some (''Bearer '' @ token))\<rparr>
          else s)"

text \<open>\<^verbatim>\<open>apiClient(config)\<close>: the request interceptor runs, the request goes out.\<close>

definition apiClient :: "platform \<Rightarrow> int \<Rightarrow> call \<Rightarrow> api_state \<Rightarrow> api_state" where
  "apiClient P now c s =
     (let s1 = request_interceptor P now c s
      in s1\<lparr>inflight := inflight s1 @ [c],
             sent := sent s1 @ [(c, authorization s1 c)]\<rparr>)"

text \<open>
  \<^verbatim>\<open>processQueue\<close>: \<^verbatim>\<open>forEach\<close> settles the entries from the first to the last, then the
  queue is replaced by the empty one. The settlements are returned in the order they are
  made; the reactions of the promises run after the current code.
\<close>

fun forEach_settle :: "js_error option \<Rightarrow> string option \<Rightarrow> call list \<Rightarrow> (call \<times> settlement) list" where
  "forEach_settle error token [] = []"
| "forEach_settle error token (entry # entries) =
     (entry, case error of Some e \<Rightarrow> Reject e | None \<Rightarrow> Resolve token)
       # forEach_settle error token entries"

definition processQueue ::
  "js_error option \<Rightarrow> string option \<Rightarrow> api_state \<Rightarrow> (call \<times> settlement) list \<times> api_state" where
  "processQueue error token s =
     (forEach_settle error token (failedQueue s),
      s\<lparr>settlements := settlements s @ forEach_settle error token (failedQueue s),
        failedQueue := []\<rparr>)"

text \<open>The template \<^verbatim>\<open>`Bearer ${token}`\<close>; \<^verbatim>\<open>null\<close> prints as \<^verbatim>\<open>null\<close>.\<close>

definition bearer :: "string option \<Rightarrow> string" where
  "bearer token = ''Bearer '' @ (case token of None \<Rightarrow> ''null'' | Some t \<Rightarrow> t)"

text \<open>
  The reactions of the queue entries. For a resolved entry \<^verbatim>\<open>.then(token => ...)\<close> sets
  the header and calls \<^verbatim>\<open>apiClient(originalRequest)\<close>; these callbacks run in the order of
  the settlements. A rejected entry skips the callback and starts a chain of jobs through
  its wrappers. \<^verbatim>\<open>processQueue\<close> resolves all entries or rejects all.
\<close>

fun then_callbacks :: "platform \<Rightarrow> int \<Rightarrow> (call \<times> settlement) list \<Rightarrow> api_state \<Rightarrow> api_state" where
  "then_callbacks P now [] s = s"
| "then_callbacks P now ((c, Resolve token) # rest) s =
     then_callbacks P now rest
       (apiClient P now c (s\<lparr>authorization := (authorization s)(c := Some (bearer token))\<rparr>))"
| "then_callbacks P now ((c, Reject error) # rest) s = then_callbacks P now rest s"

fun rejection_jobs :: "(call \<times> settlement) list \<Rightarrow> api_state \<Rightarrow> job list" where
  "rejection_jobs [] s = []"
| "rejection_jobs ((c, Reject error) # rest) s =
     (c, error, outer_hops (wrappers s c)) # rejection_jobs rest s"
| "rejection_jobs ((c, Resolve token) # rest) s = rejection_jobs rest s"

text \<open>
  The \<^verbatim>\<open>catch (refreshError)\<close> block followed by \<^verbatim>\<open>finally\<close>, up to the point where the
  rejected promise of \<^verbatim>\<open>handleApiError\<close> is returned.
\<close>

definition refresh_catch :: "js_error \<Rightarrow> api_state \<Rightarrow> (call \<times> settlement) list \<times> api_state" where
  "refresh_catch refreshError s =
     (case processQueue (Some refreshError) None s of
        (made, s1) \<Rightarrow>
          (let s2 = s1\<lparr>localStorage := (localStorage s1)(''token'' := None, ''user'' := None)\<rparr>;
               s3 = s2\<lparr>dispatched := dispatched s2 @ [AuthLogoutEvent]\<rparr>;
               s4 = handleApiError refreshError (Some ''Authentication failed'') s3;
               s5 = s4\<lparr>isRefreshing := False\<rparr>
           in (made, s5)))"

text \<open>
  The whole failure path of the handler of \<open>c\<close>: the block above, then the promise jobs.
  \<^verbatim>\<open>processQueue\<close> has queued one job for every entry it rejected, in the order of the
  queue; the handler returns after that, so the job for its own rejected promise is the
  last in the queue. It has fewer hops to make than the others.
\<close>

definition refresh_failed :: "call \<Rightarrow> js_error \<Rightarrow> api_state \<Rightarrow> api_state" where
  "refresh_failed c refreshError s =
     (case refresh_catch refreshError s of
        (made, s5) \<Rightarrow>
          microtasks
            (rejection_jobs made s5
               @ [(c, refreshError, handler_hops @ outer_hops (wrappers s5 c))])
            s5)"

text \<open>
  The rest of the \<^verbatim>\<open>try\<close> block after \<^verbatim>\<open>await axios.post(...)\<close> has returned
  \<^verbatim>\<open>{access_token, user}\<close>, followed by \<^verbatim>\<open>finally\<close> and by the callbacks of the queue
  entries.
\<close>

definition refresh_succeeded ::
  "platform \<Rightarrow> int \<Rightarrow> call \<Rightarrow> string \<Rightarrow> json \<Rightarrow> api_state \<Rightarrow> api_state" where
  "refresh_succeeded P now c access_token user s =
     (let s1 = s\<lparr>localStorage := (localStorage s)(''token'' \<mapsto> access_token)\<rparr>;
          s2 = s1\<lparr>localStorage := (localStorage s1)(''user'' \<mapsto> JSON_stringify P user)\<rparr>;
          s3 = s2\<lparr>authorization := (authorization s2)(c := Some (''Bearer '' @ access_token))\<rparr>
      in case processQueue None (Some access_token) s3 of
           (made, s4) \<Rightarrow>
             (let s5 = apiClient P now c s4;
                  s6 = s5\<lparr>isRefreshing := False\<rparr>
              in then_callbacks P now made s6))"

text \<open>
  The error handler of the response interceptor, up to its first suspension point. The
  handler of a call that waits in the queue, or for the refresh, stays suspended.
\<close>

definition response_error :: "platform \<Rightarrow> int \<Rightarrow> call \<Rightarrow> axios_error \<Rightarrow> api_state \<Rightarrow> api_state" where
  "response_error P now c error s =
     (case response error of
        None \<Rightarrow>
          (let s1 = s\<lparr>dispatched := dispatched s @ [NetworkErrorEvent (AxiosError error)]\<rparr>
           in reject_to_application c (AxiosError error)
                (handleApiError (AxiosError error) (Some ''Network connection failed'') s1))
      | Some r \<Rightarrow>
          if status r = 401 \<and> \<not> retry s c then
            (if isRefreshing s then
               s\<lparr>failedQueue := failedQueue s @ [c],
                  wrappers := (wrappers s)(c := Suc (wrappers s c))\<rparr>
             else
               (let s1 = s\<lparr>retry := (retry s)(c := True)\<rparr>;
                    s2 = s1\<lparr>isRefreshing := True\<rparr>
                in case localStorage s2 ''token'' of
                     None \<Rightarrow> refresh_failed c (Error ''No token available'') s2
                   | Some currentToken \<Rightarrow>
                       if currentToken = []
                       then refresh_failed c (Error ''No token available'') s2
                       else s2\<lparr>refreshPosts := refreshPosts s2 @ [''Bearer '' @ currentToken],
                               awaiting := awaiting s2 @ [c]\<rparr>))
          else reject_to_application c (AxiosError error)
                 (handleApiError (AxiosError error) None s))"

text \<open>
  What can happen to the module: the application calls \<^verbatim>\<open>apiClient\<close> with a new
  configuration for some url, a request in flight succeeds or fails, a posted refresh
  request is answered. An event that cannot happen in a state gives \<open>None\<close>.
\<close>

datatype event =
    Call call string
  | Response call
  | ResponseError call axios_error
  | RefreshFulfilled call string json
  | RefreshRejected call js_error

fun step :: "platform \<Rightarrow> int \<Rightarrow> api_state \<Rightarrow> event \<Rightarrow> api_state option" where
  "step P now s (Call c u) =
     (if c \<in> set (known s) then None
      else Some (apiClient P now c
        (s\<lparr>known := c # known s, url := (url s)(c := u), retry := (retry s)(c := False),
           authorization := (authorization s)(c := None),
           wrappers := (wrappers s)(c := 0)\<rparr>)))"
| "step P now s (Response c) =
     (if c \<in> set (inflight s)
      then Some (s\<lparr>inflight := remove1 c (inflight s),
                   wrappers := (wrappers s)(c := 0),
                   settled := settled s @ [(c, Fulfilled)]\<rparr>)
      else None)"
| "step P now s (ResponseError c error) =
     (if c \<in> set (inflight s)
      then Some (response_error P now c error (s\<lparr>inflight := remove1 c (inflight s)\<rparr>))
      else None)"
| "step P now s (RefreshFulfilled c access_token user) =
     (if c \<in> set (awaiting s)
      then Some (refresh_succeeded P now c access_token user
                   (s\<lparr>awaiting := remove1 c (awaiting s)\<rparr>))
      else None)"
| "step P now s (RefreshRejected c refreshError) =
     (if c \<in> set (awaiting s)
      then Some (refresh_failed c refreshError (s\<lparr>awaiting := remove1 c (awaiting s)\<rparr>))
      else None)"

text \<open>A run: the events in their order, each with the reading of the clock at its step.\<close>

fun run :: "platform \<Rightarrow> api_state \<Rightarrow> (int \<times> event) list \<Rightarrow> api_state option" where
  "run P s [] = Some s"
| "run P s ((now, e) # es) =
     (case step P now s e of None \<Rightarrow> None | Some s' \<Rightarrow> run P s' es)"

text \<open>
  The requests to the refresh endpoint that are with the network: those posted by the
  401 handler and those made through \<^verbatim>\<open>apiClient\<close>, as \<^verbatim>\<open>authAPI.refresh()\<close> does.
\<close>

definition refresh_requests_outstanding :: "api_state \<Rightarrow> nat" where
  "refresh_requests_outstanding s =
     length (awaiting s) + length (filter (\<lambda>c. url s c = ''/auth/refresh'') (inflight s))"

section \<open>The authentication context\<close>

text \<open>
  \<^verbatim>\<open>contexts/AuthContext.tsx\<close>. The state of the provider: the React state \<^verbatim>\<open>user\<close>,
  \<^verbatim>\<open>token\<close>, \<^verbatim>\<open>isLoading\<close>, the reference \<^verbatim>\<open>refreshTimeoutRef.current\<close>, the store, the
  pending timers of the window (the handle, and the time in milliseconds that the timer
  waits) with the handle that the next \<^verbatim>\<open>setTimeout\<close> returns, the number of calls of
  \<^verbatim>\<open>authAPI.refresh()\<close> and the routes passed to \<^verbatim>\<open>navigate\<close>.
\<close>

record auth_state = browser +
  user :: "json option"
  token :: "string option"
  isLoading :: bool
  refreshTimeoutRef :: "nat option"
  timers :: "(nat \<times> int) list"
  nextHandle :: nat
  refreshCalls :: nat
  navigations :: "string list"

definition clearTimeout :: "nat \<Rightarrow> auth_state \<Rightarrow> auth_state" where
  "clearTimeout handle s = s\<lparr>timers := filter (\<lambda>(h, d). h \<noteq> handle) (timers s)\<rparr>"

text \<open>
  The second argument of \<^verbatim>\<open>setTimeout\<close> is a \<^verbatim>\<open>long\<close> of Web IDL: the number is cut to
  its integer part and taken modulo \<open>2 ^ 32\<close> into the range from \<open>- 2 ^ 31\<close> to
  \<open>2 ^ 31 - 1\<close>; the timer steps of the HTML standard then replace a negative value by
  \<open>0\<close>. So a timer waits as asked only below \<open>2 ^ 31\<close> milliseconds, about 24.8 days.
\<close>

definition ToInt32 :: "real \<Rightarrow> int" where
  "ToInt32 x =
     (let n = (if 0 \<le> x then \<lfloor>x\<rfloor> else \<lceil>x\<rceil>);
          k = n mod 2 ^ 32
      in if 2 ^ 31 \<le> k then k - 2 ^ 32 else k)"

definition timer_timeout :: "real \<Rightarrow> int" where
  "timer_timeout delay = max 0 (ToInt32 delay)"

definition setTimeout :: "real \<Rightarrow> auth_state \<Rightarrow> nat \<times> auth_state" where
  "setTimeout delay s =
     (nextHandle s,
      s\<lparr>timers := timers s @ [(nextHandle s, timer_timeout delay)],
        nextHandle := Suc (nextHandle s)\<rparr>)"

text \<open>Truthiness of \<^verbatim>\<open>string | null\<close>: \<^verbatim>\<open>null\<close> and the empty string are falsy.\<close>

definition truthy_string :: "string option \<Rightarrow> bool" where
  "truthy_string x = (case x of None \<Rightarrow> False | Some v \<Rightarrow> v \<noteq> [])"

definition logout :: "auth_state \<Rightarrow> auth_state" where
  "logout s =
     (let s1 = (case refreshTimeoutRef s of
                  None \<Rightarrow> s
                | Some h \<Rightarrow>
                    if h \<noteq> 0 then (clearTimeout h s)\<lparr>refreshTimeoutRef := None\<rparr> else s);
          s2 = s1\<lparr>token := None, user := None\<rparr>;
          s3 = s2\<lparr>localStorage := (localStorage s2)(''token'' := None, ''user'' := None)\<rparr>
      in s3\<lparr>navigations := navigations s3 @ [''/login'']\<rparr>)"

definition scheduleTokenRefresh :: "platform \<Rightarrow> int \<Rightarrow> string \<Rightarrow> auth_state \<Rightarrow> auth_state" where
  "scheduleTokenRefresh P now tokenToSchedule s =
     (let s1 = (case refreshTimeoutRef s of
                  None \<Rightarrow> s
                | Some h \<Rightarrow> if h \<noteq> 0 then clearTimeout h s else s)
      in case getTokenExpiration P tokenToSchedule of
           None \<Rightarrow> s1
         | Some expiration \<Rightarrow>
             if truthy_number expiration then
               (let refreshTime =
                      Math_max (js_sub (js_sub expiration (Num (real_of_int now)))
                                  (Num (5 * 60 * 1000)))
                        (Num (60 * 1000))
                in case refreshTime of
                     NaN \<Rightarrow> s1
                   | Num delay \<Rightarrow>
                       if delay > 0
                       then (case setTimeout delay s1 of
                               (h, s2) \<Rightarrow> s2\<lparr>refreshTimeoutRef := Some h\<rparr>)
                       else s1)
             else s1)"

text \<open>
  \<^verbatim>\<open>refreshToken\<close>. \<open>reply\<close> is what \<^verbatim>\<open>await authAPI.refresh()\<close> gives when it is reached:
  the rejection, or \<^verbatim>\<open>access_token\<close> and \<^verbatim>\<open>user\<close> of the response. \<open>now\<close> is the reading
  of the clock before the call, \<open>now'\<close> the one after it. Nothing else is taken to run
  while the function waits.
\<close>

definition refreshToken ::
  "platform \<Rightarrow> int \<Rightarrow> int \<Rightarrow> js_error + string \<times> json \<Rightarrow> auth_state \<Rightarrow> bool \<times> auth_state" where
  "refreshToken P now now' reply s =
     (case localStorage s ''token'' of
        None \<Rightarrow> (False, s)
      | Some currentToken \<Rightarrow>
          if currentToken = [] \<or> isTokenExpired_ctx P now currentToken then (False, s)
          else
            (let s1 = s\<lparr>refreshCalls := Suc (refreshCalls s)\<rparr>
             in case reply of
                  Inl error \<Rightarrow> (False, logout s1)
                | Inr (access_token, userData) \<Rightarrow>
                    (let s2 = s1\<lparr>token := Some access_token, user := Some userData\<rparr>;
                         s3 = s2\<lparr>localStorage := (localStorage s2)(''token'' \<mapsto> access_token)\<rparr>;
                         s4 = s3\<lparr>localStorage :=
                                   (localStorage s3)(''user'' \<mapsto> JSON_stringify P userData)\<rparr>
                     in (True, scheduleTokenRefresh P now' access_token s4))))"

text \<open>A stored value counts when it is there, not empty and not one of the two words.\<close>

definition valid_stored :: "string option \<Rightarrow> bool" where
  "valid_stored x = (truthy_string x \<and> x \<noteq> Some ''undefined'' \<and> x \<noteq> Some ''null'')"

text \<open>
  \<^verbatim>\<open>initializeAuth\<close>, the effect that runs when the provider is mounted. \<open>now1\<close>,
  \<open>now2\<close>, \<open>now3\<close> are the successive readings of the clock.
\<close>

definition initializeAuth ::
  "platform \<Rightarrow> int \<Rightarrow> int \<Rightarrow> int \<Rightarrow> js_error + string \<times> json \<Rightarrow> auth_state \<Rightarrow> auth_state" where
  "initializeAuth P now1 now2 now3 reply s =
     (let storedToken = localStorage s ''token'';
          storedUser = localStorage s ''user'';
          isValidToken = valid_stored storedToken;
          isValidUser = valid_stored storedUser;
          s' =
            (if isValidToken \<and> isValidUser then
               (case (storedToken, storedUser) of
                  (Some tok, Some usr) \<Rightarrow>
                    if isTokenExpired_ctx P now1 tok then
                      (case refreshToken P now2 now3 reply s of
                         (refreshed, s1) \<Rightarrow> if \<not> refreshed then logout s1 else s1)
                    else
                      (case JSON_parse P usr of
                         None \<Rightarrow>
                           s\<lparr>localStorage :=
                                (localStorage s)(''token'' := None, ''user'' := None)\<rparr>
                       | Some parsedUser \<Rightarrow>
                           scheduleTokenRefresh P now2 tok
                             (s\<lparr>token := Some tok, user := Some parsedUser\<rparr>))
                | _ \<Rightarrow> s)
             else if truthy_string storedToken \<or> truthy_string storedUser then
               s\<lparr>localStorage := (localStorage s)(''token'' := None, ''user'' := None)\<rparr>
             else s)
      in s'\<lparr>isLoading := False\<rparr>)"

text \<open>\<^verbatim>\<open>isAuthenticated: !!token && !!user && !isTokenExpired(token)\<close>\<close>

definition isAuthenticated :: "platform \<Rightarrow> int \<Rightarrow> auth_state \<Rightarrow> bool" where
  "isAuthenticated P now s =
     (case token s of
        None \<Rightarrow> False
      | Some t \<Rightarrow> t \<noteq> [] \<and> user s \<noteq> None \<and> \<not> isTokenExpired_ctx P now t)"

text \<open>
  The timers that this provider creates are the ones it keeps in \<^verbatim>\<open>refreshTimeoutRef\<close>:
  a pending timer is the one the reference holds, and handles are positive, as
  \<^verbatim>\<open>setTimeout\<close> of a browser returns them.
\<close>

definition timers_wf :: "auth_state \<Rightarrow> bool" where
  "timers_wf s =
     (nextHandle s \<noteq> 0 \<and>
      list_all (\<lambda>(h, d). h \<noteq> 0 \<and> h < nextHandle s \<and> refreshTimeoutRef s = Some h) (timers s))"

section \<open>The token as the specification words it\<close>

text \<open>
  The specification calls the middle segment of a token base64url-encoded JSON. The
  url-safe alphabet is \<^verbatim>\<open>A-Z a-z 0-9 - _\<close>; padding may be left out. The next three
  definitions follow these words, to be compared with what the code does.
\<close>

definition base64url_value :: "char \<Rightarrow> nat option" where
  "base64url_value c =
     (let n = (of_char c :: nat) in
      if 65 \<le> n \<and> n \<le> 90 then Some (n - 65)
      else if 97 \<le> n \<and> n \<le> 122 then Some (n - 71)
      else if 48 \<le> n \<and> n \<le> 57 then Some (n + 4)
      else if c = CHR ''-'' then Some 62
      else if c = CHR ''_'' then Some 63
      else None)"

definition base64url_decode :: "string \<Rightarrow> string option" where
  "base64url_decode data =
     (let s = strip_padding data in
      if length s mod 4 = 1 then None
      else map_option sextets_bytes (sextets base64url_value s))"

definition base64url_payload :: "platform \<Rightarrow> string \<Rightarrow> json option" where
  "base64url_payload P t =
     (case split_dot t of
        _ # seg # _ \<Rightarrow>
          (case base64url_decode seg of None \<Rightarrow> None | Some text \<Rightarrow> JSON_parse P text)
      | _ \<Rightarrow> None)"


section \<open>A platform for the examples\<close>

text \<open>
  The theorems below hold for every platform. Their examples need one: this one gives,
  for the JSON texts that the examples use, the value that \<^verbatim>\<open>JSON.parse\<close> returns, a
  number being the double nearest to its digits.
\<close>

definition JSON_examples :: platform where
  \<open>JSON_examples =
     \<lparr> JSON_parse = (\<lambda>text.
         if text = ''{"exp":0}'' then Some (JObj [(''exp'', JNum 0)])
         else if text = ''{"exp":900}'' then Some (JObj [(''exp'', JNum 900)])
         else if text = ''{"exp":1029}'' then Some (JObj [(''exp'', JNum 1029)])
         else if text = ''{"exp":1031}'' then Some (JObj [(''exp'', JNum 1031)])
         else if text = ''{"exp":1600}'' then Some (JObj [(''exp'', JNum 1600)])
         else if text = ''{"exp":2593000}'' then Some (JObj [(''exp'', JNum 2593000)])
         else if text = ''{"exp":1030.003}''
           then Some (JObj [(''exp'', JNum (binary64 (1030003 / 1000)))])
         else if text = ''{"exp":1030.001}''
           then Some (JObj [(''exp'', JNum (binary64 (1030001 / 1000)))])
         else if text = ''{"exp":9999999999,"n":"??"}''
           then Some (JObj [(''exp'', JNum 9999999999), (''n'', JStr ''??'')])
         else if text = ''{"id":"1"}'' then Some (JObj [(''id'', JStr ''1'')])
         else None),
       JSON_stringify = (\<lambda>v. if v = JObj [(''id'', JStr ''1'')] then ''{"id":"1"}'' else ''null''),
       ToNumber_object = (\<lambda>v. NaN) \<rparr>\<close>

text \<open>An error that carries a response with the given status.\<close>

definition http_error :: "int \<Rightarrow> axios_error" where
  "http_error st = \<lparr> response = Some \<lparr> status = st \<rparr>, code = Some ''ERR_BAD_RESPONSE'',
     message = ''Request failed'', name = ''AxiosError'' \<rparr>"

text \<open>The state of the provider when it is mounted: nothing set, no timer pending.\<close>

definition initial_auth :: "(string \<Rightarrow> string option) \<Rightarrow> auth_state" where
  "initial_auth store =
     \<lparr> localStorage = store, user = None, token = None, isLoading = True,
       refreshTimeoutRef = None, timers = [], nextHandle = 1, refreshCalls = 0,
       navigations = [] \<rparr>"

text \<open>The first statement of \<^verbatim>\<open>scheduleTokenRefresh\<close>, which cancels the timer of the reference.\<close>

definition cancel_pending :: "auth_state \<Rightarrow> auth_state" where
  "cancel_pending s =
     (case refreshTimeoutRef s of
        None \<Rightarrow> s
      | Some h \<Rightarrow> if h \<noteq> 0 then clearTimeout h s else s)"

section \<open>Statements about the API client and its examples\<close>


text \<open>The examples: a response with status 401, a store, a user, and the state after a run.\<close>

definition unauthorized :: axios_error where
  "unauthorized = http_error 401"

definition example_store :: "string \<Rightarrow> string option" where
  \<open>example_store = [''token'' \<mapsto> ''header.eyJleHAiOjkwMH0.signature'', ''user'' \<mapsto> ''{"id":"1"}'']\<close>

definition after :: "platform \<Rightarrow> api_state \<Rightarrow> (int \<times> event) list \<Rightarrow> api_state" where
  "after P s evs = (case run P s evs of Some s' \<Rightarrow> s' | None \<Rightarrow> s)"

definition example_user :: json where
  "example_user = JObj [(''id'', JStr ''1'')]"

text \<open>
  Three calls go out with the expired token of the store and the first comes back with
  401: its handler posts the refresh request and waits; the calls 2 and 3 are in flight.
\<close>

definition trace_refreshing :: "(int \<times> event) list" where
  "trace_refreshing =
     [(1000000, Call 1 ''/workflows''),
      (1000000, Call 2 ''/nodes''),
      (1000000, Call 3 ''/workflow-runs''),
      (1000000, ResponseError 1 unauthorized)]"

text \<open>Then the calls 2 and 3 come back with 401 and wait in the queue.\<close>

definition trace_queued :: "(int \<times> event) list" where
  "trace_queued =
     trace_refreshing @
     [(1000000, ResponseError 2 unauthorized),
      (1000000, ResponseError 3 unauthorized)]"

text \<open>Then the refresh request of the handler of call 1 fails with the status 500.\<close>

definition trace_failed :: "(int \<times> event) list" where
  "trace_failed =
     trace_queued @ [(1000000, RefreshRejected 1 (AxiosError (http_error 500)))]"

text \<open>
  Or the refresh succeeds and the three calls are sent again. A fourth call goes out. The
  calls 2, 3 and 4 come back with 401 in this order: call 2, which was queued before and
  so is not marked \<^verbatim>\<open>_retry\<close>, opens a second refresh; call 3 is queued for the second
  time and call 4 for the first time. Then the second refresh fails.
\<close>

definition trace_requeued :: "(int \<times> event) list" where
  "trace_requeued =
     trace_queued @
     [(1000000, RefreshFulfilled 1 ''header.eyJleHAiOjE2MDB9.signature'' example_user),
      (1000000, Call 4 ''/files''),
      (1000000, ResponseError 2 unauthorized),
      (1000000, ResponseError 3 unauthorized),
      (1000000, ResponseError 4 unauthorized),
      (1000000, RefreshRejected 2 (AxiosError (http_error 500)))]"



text \<open>
  The calls 1 and 2 come back with 401; call 1 opens the refresh and call 2 waits in the
  queue. The refresh succeeds and both are sent again. Call 2 comes back with 401 once
  more: since the queueing branch never sets \<^verbatim>\<open>_retry\<close>, its handler opens a second
  refresh, and after that call 2 is sent a third time.
\<close>

definition trace_queued_retry :: "(int \<times> event) list" where
  "trace_queued_retry =
     [(1000000, Call 1 ''/workflows''),
      (1000000, Call 2 ''/nodes''),
      (1000000, ResponseError 1 unauthorized),
      (1000000, ResponseError 2 unauthorized),
      (1000000, RefreshFulfilled 1 ''header.eyJleHAiOjE2MDB9.signature'' example_user),
      (1000000, ResponseError 2 unauthorized),
      (1000000, RefreshFulfilled 2 ''header.eyJleHAiOjE2MDB9.signature'' example_user)]"

section \<open>Properties of the rounding\<close>

lemma ulp_pos: "0 < ulp x"
  by (simp add: ulp_def)

lemma round_to_multiple:
  assumes "0 < u"
  shows "round_to u (of_int k * u) = of_int k * u"
  using assms by (simp add: round_to_def)

lemma round_to_cases:
  obtains "round_to u x = of_int \<lfloor>x / u\<rfloor> * u" "x / u - of_int \<lfloor>x / u\<rfloor> \<le> 1 / 2"
    "x / u - of_int \<lfloor>x / u\<rfloor> = 1 / 2 \<Longrightarrow> even \<lfloor>x / u\<rfloor>"
  | "round_to u x = of_int (\<lfloor>x / u\<rfloor> + 1) * u" "1 / 2 \<le> x / u - of_int \<lfloor>x / u\<rfloor>"
    "x / u - of_int \<lfloor>x / u\<rfloor> = 1 / 2 \<Longrightarrow> odd \<lfloor>x / u\<rfloor>"
  unfolding round_to_def Let_def by (cases "x / u - of_int \<lfloor>x / u\<rfloor>" "1 / 2 :: real" rule: linorder_cases) auto

lemma round_to_mono:
  assumes "0 < u" and "x \<le> y"
  shows "round_to u x \<le> round_to u y"
proof -
  define qx where "qx = x / u"
  define qy where "qy = y / u"
  define m where "m = \<lfloor>qx\<rfloor>"
  define n where "n = \<lfloor>qy\<rfloor>"
  have q: "qx \<le> qy" using assms by (simp add: qx_def qy_def divide_right_mono)
  then have f: "m \<le> n" unfolding m_def n_def by (rule floor_mono)
  have mono: "of_int i * u \<le> of_int j * u" if "i \<le> j" for i j :: int
    using that assms(1) by (simp add: mult_right_mono)
  show ?thesis
  proof (cases rule: round_to_cases [where u = u and x = x])
    case 1
    note x = 1 [folded qx_def, folded m_def]
    show ?thesis
    proof (cases rule: round_to_cases [where u = u and x = y])
      case 1
      then show ?thesis using x(1) mono [OF f] by (simp add: qy_def n_def)
    next
      case 2
      then show ?thesis using x(1) mono [of m "n + 1"] f by (simp add: qy_def n_def)
    qed
  next
    case 2
    note x = 2 [folded qx_def, folded m_def]
    show ?thesis
    proof (cases rule: round_to_cases [where u = u and x = y])
      case 1
      note y = 1 [folded qy_def, folded n_def]
      have "m + 1 \<le> n"
      proof (rule ccontr)
        assume "\<not> m + 1 \<le> n"
        then have mn: "m = n" using f by simp
        then have "qx - of_int m = 1 / 2" "qy - of_int m = 1 / 2"
          using x(2) y(2) q by simp_all
        then show False using x(3) y(3) mn by simp
      qed
      then show ?thesis using x(1) y(1) mono [of "m + 1" n] by simp
    next
      case 2
      then show ?thesis using x(1) mono [of "m + 1" "n + 1"] f by (simp add: qy_def n_def)
    qed
  qed
qed

lemma round_to_le:
  assumes "0 < u" and "x \<le> of_int k * u"
  shows "round_to u x \<le> of_int k * u"
  using round_to_mono [OF assms] round_to_multiple [OF assms(1), of k] by simp

lemma round_to_ge:
  assumes "0 < u" and "of_int k * u \<le> x"
  shows "of_int k * u \<le> round_to u x"
  using round_to_mono [OF assms] round_to_multiple [OF assms(1), of k] by simp

lemma round_to_error:
  assumes "0 < u"
  shows "\<bar>round_to u x - x\<bar> \<le> u / 2"
proof -
  define q where "q = x / u"
  define n where "n = \<lfloor>q\<rfloor>"
  have x: "x = q * u" using assms by (simp add: q_def)
  have n: "of_int n \<le> q" "q < of_int n + 1" by (simp_all add: n_def)
  show ?thesis
  proof (cases rule: round_to_cases [where u = u and x = x])
    case 1
    note r = 1 [folded q_def, folded n_def]
    have "round_to u x - x = of_int n * u - x" by (simp only: r(1))
    also have "\<dots> = of_int n * u - q * u" by (simp only: x [symmetric])
    finally have "round_to u x - x = - ((q - of_int n) * u)" by (simp add: algebra_simps)
    moreover have "0 \<le> (q - of_int n) * u" using n assms by simp
    moreover have "(q - of_int n) * u \<le> (1 / 2) * u"
      using r(2) assms by (intro mult_right_mono) simp_all
    ultimately show ?thesis by simp
  next
    case 2
    note r = 2 [folded q_def, folded n_def]
    have "round_to u x - x = of_int (n + 1) * u - x" by (simp only: r(1))
    also have "\<dots> = of_int (n + 1) * u - q * u" by (simp only: x [symmetric])
    finally have "round_to u x - x = (of_int n + 1 - q) * u" by (simp add: algebra_simps)
    moreover have "0 \<le> (of_int n + 1 - q) * u" using n assms by simp
    moreover have "(of_int n + 1 - q) * u \<le> (1 / 2) * u"
      using r(2) assms by (intro mult_right_mono) simp_all
    ultimately show ?thesis by simp
  qed
qed


lemma binade:
  assumes "x \<noteq> 0"
  shows "2 powr of_int \<lfloor>log 2 \<bar>x\<bar>\<rfloor> \<le> \<bar>x\<bar>" and "\<bar>x\<bar> < 2 powr of_int (\<lfloor>log 2 \<bar>x\<bar>\<rfloor> + 1)"
  using floor_log_eq_powr_iff [of "\<bar>x\<bar>" 2 "\<lfloor>log 2 \<bar>x\<bar>\<rfloor>"] assms by simp_all

lemma ulp_binade:
  assumes "2 powr of_int e \<le> \<bar>x\<bar>" and "\<bar>x\<bar> < 2 powr of_int (e + 1)"
  shows "ulp x = 2 powr of_int (e - 52)"
proof -
  have "0 < \<bar>x\<bar>" using assms(1) powr_gt_zero [of 2 "of_int e"] by linarith
  then have "\<lfloor>log 2 \<bar>x\<bar>\<rfloor> = e"
    using floor_log_eq_powr_iff [of "\<bar>x\<bar>" 2 e] assms by simp
  then show ?thesis by (simp add: ulp_def)
qed

lemma ulp_le:
  assumes "x \<noteq> 0"
  shows "ulp x \<le> \<bar>x\<bar> / 2 ^ 52"
proof -
  have "ulp x = 2 powr of_int \<lfloor>log 2 \<bar>x\<bar>\<rfloor> / 2 ^ 52"
    by (simp add: ulp_def powr_diff)
  then show ?thesis using binade(1) [OF assms] by (simp add: divide_right_mono)
qed

text \<open>
  An integer multiple of \<open>2 ^ j\<close> is a multiple of the unit in the last place of every number
  below \<open>2 ^ (53 + j)\<close>, so rounding such a number does not cross it.
\<close>

lemma multiple_of_ulp:
  assumes "x \<noteq> 0" and "\<bar>x\<bar> < 2 ^ 53 * 2 powr of_int j"
  shows "\<exists>m. of_int k * 2 powr of_int j = of_int m * ulp x"
proof -
  define e where "e = \<lfloor>log 2 \<bar>x\<bar>\<rfloor>"
  have "2 powr of_int e \<le> \<bar>x\<bar>" using binade(1) [OF assms(1)] by (simp add: e_def)
  moreover have "(2::real) ^ 53 * 2 powr of_int j = 2 powr of_int (53 + j)"
    by (simp add: powr_add)
  ultimately have "(2::real) powr of_int e < 2 powr of_int (53 + j)"
    using assms(2) by linarith
  then have "e < 53 + j" by simp
  then have le: "0 \<le> j + 52 - e" by simp
  have split: "(2::real) powr of_int j = 2 powr of_int (j + 52 - e) * 2 powr of_int (e - 52)"
    by (simp add: powr_add [symmetric])
  have p: "(2::real) powr of_int (j + 52 - e) = of_int (2 ^ nat (j + 52 - e))"
    using le powr_real_of_int [of 2 "j + 52 - e"] by simp
  have u: "ulp x = 2 powr of_int (e - 52)" by (simp add: ulp_def e_def)
  have "of_int k * 2 powr of_int j = of_int (k * 2 ^ nat (j + 52 - e)) * ulp x"
    unfolding u by (subst split) (use p in simp)
  then show ?thesis by blast
qed

lemma binary64_le:
  assumes "x \<le> of_int k * 2 powr of_int j" and "\<bar>x\<bar> < 2 ^ 53 * 2 powr of_int j"
  shows "binary64 x \<le> of_int k * 2 powr of_int j"
proof (cases "x = 0")
  case True
  then show ?thesis using assms(1) by (simp add: binary64_def)
next
  case False
  obtain m where m: "of_int k * 2 powr of_int j = of_int m * ulp x"
    using multiple_of_ulp [OF False assms(2)] by blast
  show ?thesis
    using round_to_le [OF ulp_pos, of x m x] assms(1) False by (simp add: binary64_def m)
qed

lemma binary64_ge:
  assumes "of_int k * 2 powr of_int j \<le> x" and "\<bar>x\<bar> < 2 ^ 53 * 2 powr of_int j"
  shows "of_int k * 2 powr of_int j \<le> binary64 x"
proof (cases "x = 0")
  case True
  then show ?thesis using assms(1) by (simp add: binary64_def)
next
  case False
  obtain m where m: "of_int k * 2 powr of_int j = of_int m * ulp x"
    using multiple_of_ulp [OF False assms(2)] by blast
  show ?thesis
    using round_to_ge [OF ulp_pos, of m x x] assms(1) False by (simp add: binary64_def m)
qed

lemma binary64_le_int:
  assumes "x \<le> of_int k" and "\<bar>x\<bar> < 2 ^ 53"
  shows "binary64 x \<le> of_int k"
  using binary64_le [of x k 0] assms by simp

lemma binary64_ge_int:
  assumes "of_int k \<le> x" and "\<bar>x\<bar> < 2 ^ 53"
  shows "of_int k \<le> binary64 x"
  using binary64_ge [of k 0 x] assms by simp

lemma binary64_of_int:
  assumes "\<bar>k\<bar> < 2 ^ 53"
  shows "binary64 (of_int k) = of_int k"
proof -
  have "\<bar>real_of_int k\<bar> < 2 ^ 53"
    using assms by (metis of_int_abs of_int_less_numeral_power_cancel_iff)
  then show ?thesis
    using binary64_le_int [of "of_int k" k] binary64_ge_int [of k "of_int k"] by simp
qed

lemma binary64_error:
  "\<bar>binary64 x - x\<bar> \<le> \<bar>x\<bar> / 2 ^ 53"
proof (cases "x = 0")
  case True
  then show ?thesis by (simp add: binary64_def)
next
  case False
  have "\<bar>binary64 x - x\<bar> \<le> ulp x / 2"
    using round_to_error [OF ulp_pos, of x x] False by (simp add: binary64_def)
  also have "\<dots> \<le> (\<bar>x\<bar> / 2 ^ 52) / 2"
    using ulp_le [OF False] by simp
  finally show ?thesis by simp
qed

lemma binary64_sign:
  "0 \<le> x \<Longrightarrow> 0 \<le> binary64 x" "x \<le> 0 \<Longrightarrow> binary64 x \<le> 0"
proof -
  have z: "(0::real) = of_int 0 * ulp x" by simp
  show "0 \<le> x \<Longrightarrow> 0 \<le> binary64 x"
    using round_to_ge [OF ulp_pos, of 0 x x] by (simp add: binary64_def)
  show "x \<le> 0 \<Longrightarrow> binary64 x \<le> 0"
    using round_to_le [OF ulp_pos, of x 0 x] by (simp add: binary64_def)
qed

text \<open>Rounding keeps a number in its binade, with the upper end included.\<close>

lemma binary64_binade:
  assumes "2 powr of_int e \<le> x" and "x < 2 powr of_int (e + 1)"
  shows "2 powr of_int e \<le> binary64 x" and "binary64 x \<le> 2 powr of_int (e + 1)"
proof -
  have pos: "0 < x" using assms(1) powr_gt_zero [of 2 "of_int e"] by linarith
  have u: "ulp x = 2 powr of_int (e - 52)"
    using ulp_binade [of e x] assms pos by simp
  have lo: "2 powr of_int e = of_int (2 ^ 52) * ulp x"
    by (simp add: u powr_diff)
  have hi: "2 powr of_int (e + 1) = of_int (2 ^ 53) * ulp x"
    by (simp add: u powr_diff powr_add)
  show "2 powr of_int e \<le> binary64 x"
    using round_to_ge [OF ulp_pos, of "2 ^ 52" x x] assms(1) pos
    by (simp only: lo [symmetric] binary64_def) simp
  show "binary64 x \<le> 2 powr of_int (e + 1)"
    using round_to_le [OF ulp_pos, of x "2 ^ 53" x] assms(2) pos
    by (simp only: hi [symmetric] binary64_def) simp
qed

lemma binary64_mono_pos:
  assumes "0 < x" and "x \<le> y"
  shows "binary64 x \<le> binary64 y"
proof -
  define ex where "ex = \<lfloor>log 2 \<bar>x\<bar>\<rfloor>"
  define ey where "ey = \<lfloor>log 2 \<bar>y\<bar>\<rfloor>"
  have x: "2 powr of_int ex \<le> x" "x < 2 powr of_int (ex + 1)"
    using binade [of x] assms(1) by (simp_all add: ex_def)
  have y: "2 powr of_int ey \<le> y" "y < 2 powr of_int (ey + 1)"
    using binade [of y] assms by (simp_all add: ey_def)
  have "log 2 \<bar>x\<bar> \<le> log 2 \<bar>y\<bar>" using assms by simp
  then have le: "ex \<le> ey" unfolding ex_def ey_def by (rule floor_mono)
  show ?thesis
  proof (cases "ex = ey")
    case True
    then have "ulp x = ulp y" by (simp add: ulp_def ex_def ey_def)
    then show ?thesis
      using round_to_mono [OF ulp_pos assms(2), of y] assms by (simp add: binary64_def)
  next
    case False
    then have "ex + 1 \<le> ey" using le by simp
    then have "(2::real) powr of_int (ex + 1) \<le> 2 powr of_int ey" by simp
    then show ?thesis
      using binary64_binade(2) [OF x] binary64_binade(1) [OF y] by linarith
  qed
qed

lemma round_to_minus:
  "round_to u (- x) = - round_to u x"
proof -
  define q where "q = x / u"
  define n where "n = \<lfloor>q\<rfloor>"
  have mq: "- x / u = - q" by (simp add: q_def)
  show ?thesis
  proof (cases "q = of_int n")
    case True
    then have "\<lfloor>- q\<rfloor> = - n" by (metis floor_of_int of_int_minus)
    then show ?thesis
      unfolding round_to_def Let_def mq q_def [symmetric] n_def [symmetric]
      using True by simp
  next
    case False
    have "of_int n \<le> q" "q < of_int n + 1" by (simp_all add: n_def)
    then have n: "of_int n < q" "q < of_int n + 1"
      using False by linarith+
    have fl: "\<lfloor>- q\<rfloor> = - n - 1"
      using n by (intro floor_unique) simp_all
    show ?thesis
      unfolding round_to_def Let_def mq q_def [symmetric] n_def [symmetric] fl
      using n by (auto simp: algebra_simps)
  qed
qed

lemma ulp_minus: "ulp (- x) = ulp x"
  by (simp add: ulp_def)

lemma binary64_minus: "binary64 (- x) = - binary64 x"
  by (simp add: binary64_def round_to_minus ulp_minus)

lemma binary64_mono:
  assumes "x \<le> y"
  shows "binary64 x \<le> binary64 y"
proof -
  consider "0 < x" | "x \<le> 0" "0 \<le> y" | "y < 0" by linarith
  then show ?thesis
  proof cases
    case 1
    then show ?thesis using assms by (rule binary64_mono_pos)
  next
    case 2
    then show ?thesis using binary64_sign [of x] binary64_sign [of y] by linarith
  next
    case 3
    then have "0 < - y" "- y \<le> - x" using assms by simp_all
    then have "binary64 (- y) \<le> binary64 (- x)" by (rule binary64_mono_pos)
    then show ?thesis by (simp add: binary64_minus)
  qed
qed


text \<open>The rounding of a number whose binade is known.\<close>

lemma binary64_eval:
  assumes "2 powr of_int e \<le> \<bar>x\<bar>" and "\<bar>x\<bar> < 2 powr of_int (e + 1)"
  shows "binary64 x = round_to (2 powr of_int (e - 52)) x"
proof -
  have "x \<noteq> 0" using assms(1) powr_gt_zero [of 2 "of_int e"] by auto
  then show ?thesis using ulp_binade [OF assms] by (simp add: binary64_def)
qed

lemmas round_simps = round_to_def powr_real_of_int powr_minus Let_def

lemma binary64_numeral [simp]:
  "(numeral w :: int) < 2 ^ 53 \<Longrightarrow> binary64 (numeral w) = numeral w"
  using binary64_of_int [of "numeral w"] by simp

lemma binary64_0 [simp]: "binary64 0 = 0"
  by (simp add: binary64_def)

lemma binary64_power_of_two:
  assumes "\<bar>k\<bar> < 2 ^ 53"
  shows "binary64 (of_int k * 2 ^ n) = of_int k * 2 ^ n"
proof -
  have p: "(2::real) powr real n = 2 ^ n"
    by (simp add: powr_realpow)
  have "\<bar>real_of_int k\<bar> < 2 ^ 53"
    using assms by (metis of_int_abs of_int_less_numeral_power_cancel_iff)
  then have "\<bar>real_of_int k\<bar> * 2 ^ n < 2 ^ 53 * 2 ^ n"
    by simp
  then have "\<bar>of_int k * (2::real) ^ n\<bar> < 2 ^ 53 * 2 powr of_int (int n)"
    by (simp add: p abs_mult)
  then show ?thesis
    using binary64_le [of "of_int k * 2 ^ n" k "int n"] binary64_ge [of k "int n" "of_int k * 2 ^ n"]
    by (simp add: p)
qed

section \<open>Properties of the retry policy\<close>

lemma shouldRetryError_exhausted: "3 \<le> retryCount \<Longrightarrow> \<not> shouldRetryError error retryCount"
  by (simp add: shouldRetryError_def)

lemma shouldRetryError_status:
  assumes "retryCount < 3" and "response error = Some r"
  shows "shouldRetryError error retryCount
           \<longleftrightarrow> status r = 408 \<or> status r = 429 \<or> 500 \<le> status r"
  using assms
  by (auto simp: shouldRetryError_def response_status_def isNetworkError_def)

lemma shouldRetryError_no_response:
  assumes "retryCount < 3" and "response error = None"
  shows "shouldRetryError error retryCount \<longleftrightarrow> isNetworkError error"
  using assms by (simp add: shouldRetryError_def response_status_def)

lemma getRetryDelay_eq:
  "getRetryDelay r i = binary64 (min (1000 * 2 ^ i) 10000 + binary64 (r * 1000))"
proof -
  have "binary64 (2 ^ i) = (2::real) ^ i"
    using binary64_power_of_two [of 1 i] by simp
  moreover have "binary64 (1000 * 2 ^ i) = (1000::real) * 2 ^ i"
    using binary64_power_of_two [of 1000 i] by simp
  ultimately show ?thesis
    by (simp add: getRetryDelay_def Let_def)
qed

lemma jitter_bounds:
  assumes "0 \<le> r" and "r < 1"
  shows "0 \<le> binary64 (r * 1000)" and "binary64 (r * 1000) \<le> 1000"
proof -
  show "0 \<le> binary64 (r * 1000)"
    using assms(1) by (simp add: binary64_sign)
  show "binary64 (r * 1000) \<le> 1000"
    using binary64_le_int [of "r * 1000" 1000] assms by simp
qed

text \<open>The largest double below \<open>1\<close> is \<open>1 - 1 / 2 ^ 53\<close>.\<close>

lemma jitter_below:
  assumes "0 \<le> r" and "r \<le> 1 - 1 / 2 ^ 53"
  shows "binary64 (r * 1000) < 1000"
proof (cases "r * 1000 < 512")
  case True
  then have "binary64 (r * 1000) \<le> 512"
    using binary64_le_int [of "r * 1000" 512] assms(1) by simp
  then show ?thesis by simp
next
  case False
  then have lo: "2 powr of_int 9 \<le> \<bar>r * 1000\<bar>"
    by (simp add: powr_real_of_int)
  have hi: "\<bar>r * 1000\<bar> < 2 powr of_int (9 + 1)"
    using assms by (simp add: powr_real_of_int)
  have "binary64 (r * 1000) = round_to (2 powr of_int (9 - 52)) (r * 1000)"
    using lo hi by (rule binary64_eval)
  also have "\<dots> \<le> round_to (2 powr of_int (9 - 52)) ((1 - 1 / 2 ^ 53) * 1000)"
    using assms(2) by (intro round_to_mono) simp_all
  also have "\<dots> = 1000 - 1 / 2 ^ 43"
    by (simp add: round_simps)
  finally show ?thesis by simp
qed

lemma getRetryDelay_range:
  assumes "0 \<le> r" and "r < 1"
  shows "min (1000 * 2 ^ i) 10000 \<le> getRetryDelay r i"
    and "getRetryDelay r i \<le> min (1000 * 2 ^ i) 10000 + 1000"
proof -
  define d :: int where "d = min (1000 * 2 ^ i) 10000"
  have d: "(min (1000 * 2 ^ i) 10000 :: real) = of_int d"
    unfolding d_def of_int_min by simp
  have range: "0 \<le> d" "d \<le> 10000" by (simp_all add: d_def)
  note j = jitter_bounds [OF assms]
  have small: "\<bar>of_int d + binary64 (r * 1000)\<bar> < 2 ^ 53"
    using range j by simp
  have "of_int d \<le> binary64 (of_int d + binary64 (r * 1000))"
    using j(1) small by (intro binary64_ge_int) simp_all
  then show "min (1000 * 2 ^ i) 10000 \<le> getRetryDelay r i"
    by (simp add: getRetryDelay_eq d)
  have "binary64 (of_int d + binary64 (r * 1000)) \<le> of_int (d + 1000)"
    using j(2) small by (intro binary64_le_int) simp_all
  then show "getRetryDelay r i \<le> min (1000 * 2 ^ i) 10000 + 1000"
    by (simp add: getRetryDelay_eq d)
qed

lemma getRetryDelay_error:
  assumes "0 \<le> r" and "r < 1"
  shows "\<bar>getRetryDelay r i - (min (1000 * 2 ^ i) 10000 + r * 1000)\<bar> \<le> 1 / 2 ^ 39"
proof -
  define d :: real where "d = min (1000 * 2 ^ i) 10000"
  define j where "j = binary64 (r * 1000)"
  have range: "0 \<le> d" "d \<le> 10000" by (simp_all add: d_def)
  have jb: "0 \<le> j" "j \<le> 1000"
    using jitter_bounds [OF assms] by (simp_all add: j_def)
  have "\<bar>j - r * 1000\<bar> \<le> \<bar>r * 1000\<bar> / 2 ^ 53"
    unfolding j_def by (rule binary64_error)
  also have "\<dots> \<le> 1000 / 2 ^ 53"
    using assms by (intro divide_right_mono) simp_all
  finally have e1: "\<bar>j - r * 1000\<bar> \<le> 1000 / 2 ^ 53" .
  have "\<bar>binary64 (d + j) - (d + j)\<bar> \<le> \<bar>d + j\<bar> / 2 ^ 53"
    by (rule binary64_error)
  also have "\<dots> \<le> 11000 / 2 ^ 53"
    using range jb by (intro divide_right_mono) simp_all
  finally have e2: "\<bar>binary64 (d + j) - (d + j)\<bar> \<le> 11000 / 2 ^ 53" .
  have "\<bar>binary64 (d + j) - (d + r * 1000)\<bar> \<le> 12000 / 2 ^ 53"
    using e1 e2 by linarith
  also have "(12000 :: real) / 2 ^ 53 \<le> 1 / 2 ^ 39" by simp
  finally show ?thesis
    by (simp add: getRetryDelay_eq d_def j_def)
qed

text \<open>
  C8, as the code has it. For every attempt index \<open>i\<close> and every draw \<open>r\<close> of
  \<^verbatim>\<open>Math.random()\<close> (a number with \<open>0 \<le> r < 1\<close>), \<^verbatim>\<open>getRetryDelay(i)\<close> is the sum of
  \<open>min (1000 * 2 ^ i) 10000\<close> and the jitter, the product of \<open>r\<close> and 1000, both the product
  and the sum rounded to a double: it is within \<open>1 / 2 ^ 39\<close> of the exact sum. The jitter
  lies in \<open>[0, 1000]\<close>, and below 1000 for every double \<open>r\<close> below 1. The delay lies between
  the exponential term and that term plus 1000, both ends included: \<^verbatim>\<open>getRetryDelay(0)\<close>
  lies in \<open>[1000, 2000]\<close> and \<^verbatim>\<open>getRetryDelay(5)\<close> in \<open>[10000, 11000]\<close>, where the exponential
  term has stopped at the ceiling of ten seconds.
\<close>

theorem getRetryDelay_bounds:
  assumes "0 \<le> r" and "r < 1"
  shows "getRetryDelay r i = binary64 (min (1000 * 2 ^ i) 10000 + binary64 (r * 1000))
       \<and> \<bar>getRetryDelay r i - (min (1000 * 2 ^ i) 10000 + r * 1000)\<bar> \<le> 1 / 2 ^ 39
       \<and> 0 \<le> binary64 (r * 1000) \<and> binary64 (r * 1000) \<le> 1000
       \<and> (r \<le> 1 - 1 / 2 ^ 53 \<longrightarrow> binary64 (r * 1000) < 1000)
       \<and> min (1000 * 2 ^ i) 10000 \<le> getRetryDelay r i
       \<and> getRetryDelay r i \<le> min (1000 * 2 ^ i) 10000 + 1000
       \<and> 1000 \<le> getRetryDelay r 0 \<and> getRetryDelay r 0 \<le> 2000
       \<and> 10000 \<le> getRetryDelay r 5 \<and> getRetryDelay r 5 \<le> 11000"
proof -
  have zero: "1000 \<le> getRetryDelay r 0 \<and> getRetryDelay r 0 \<le> 2000"
    using getRetryDelay_range [OF assms, of 0] by simp
  have five: "10000 \<le> getRetryDelay r 5 \<and> getRetryDelay r 5 \<le> 11000"
    using getRetryDelay_range [OF assms, of 5] by simp
  show ?thesis
    using getRetryDelay_eq [of r i] getRetryDelay_error [OF assms, of i]
      jitter_bounds [OF assms] jitter_below [OF assms(1)]
      getRetryDelay_range [OF assms, of i] zero five
    by blast
qed

text \<open>The theorem at the draw \<open>1 / 2\<close>, for the attempts 2, 0 and 5.\<close>

theorem getRetryDelay_bounds_witness:
  "(0::real) \<le> 1 / 2 \<and> (1 / 2 :: real) < 1
   \<and> getRetryDelay (1 / 2) 2 = 4500
   \<and> binary64 (1 / 2 * 1000) < 1000
   \<and> 1000 \<le> getRetryDelay (1 / 2) 0 \<and> getRetryDelay (1 / 2) 0 \<le> 2000
   \<and> 10000 \<le> getRetryDelay (1 / 2) 5 \<and> getRetryDelay (1 / 2) 5 \<le> 11000"
  using getRetryDelay_bounds [of "1 / 2" 2] by simp

text \<open>
  C8 as the specification states it leaves the upper ends out. At the draw
  \<open>1 - 1 / 2 ^ 52\<close>, the largest that the generators with 52 random bits return, the jitter
  is \<open>1000 - 1 / 2 ^ 42\<close> and the sum with 10000 rounds to 11000; at the draw
  \<open>1 - 1 / 2 ^ 53\<close>, the largest double below 1, the sum with 1000 lies halfway between two
  doubles and rounds to 2000.
\<close>

theorem getRetryDelay_bounds_counterexample:
  "(0::real) \<le> 1 - 1 / 2 ^ 52 \<and> (1 - 1 / 2 ^ 52 :: real) < 1
   \<and> getRetryDelay (1 - 1 / 2 ^ 52) 5 = 11000
   \<and> (0::real) \<le> 1 - 1 / 2 ^ 53 \<and> (1 - 1 / 2 ^ 53 :: real) < 1
   \<and> getRetryDelay (1 - 1 / 2 ^ 53) 0 = 2000"
proof -
  have j52: "binary64 ((1 - 1 / 2 ^ 52) * 1000) = 1000 - 1 / 2 ^ 42"
    by (subst binary64_eval [where e = 9]) (simp_all add: round_simps)
  have s52: "binary64 (10000 + (1000 - 1 / 2 ^ 42)) = 11000"
    by (subst binary64_eval [where e = 13]) (simp_all add: round_simps)
  have j53: "binary64 ((1 - 1 / 2 ^ 53) * 1000) = 1000 - 1 / 2 ^ 43"
    by (subst binary64_eval [where e = 9]) (simp_all add: round_simps)
  have s53: "binary64 (1000 + (1000 - 1 / 2 ^ 43)) = 2000"
    by (subst binary64_eval [where e = 10]) (simp_all add: round_simps)
  have "getRetryDelay (1 - 1 / 2 ^ 52) 5
      = binary64 (min (1000 * 2 ^ 5) 10000 + (1000 - 1 / 2 ^ 42))"
    by (simp only: getRetryDelay_eq j52)
  also have "\<dots> = binary64 (10000 + (1000 - 1 / 2 ^ 42))"
    by simp
  also have "\<dots> = 11000"
    by (rule s52)
  finally have five: "getRetryDelay (1 - 1 / 2 ^ 52) 5 = 11000" .
  have "getRetryDelay (1 - 1 / 2 ^ 53) 0
      = binary64 (min (1000 * 2 ^ 0) 10000 + (1000 - 1 / 2 ^ 43))"
    by (simp only: getRetryDelay_eq j53)
  also have "\<dots> = binary64 (1000 + (1000 - 1 / 2 ^ 43))"
    by simp
  also have "\<dots> = 2000"
    by (rule s53)
  finally have zero: "getRetryDelay (1 - 1 / 2 ^ 53) 0 = 2000" .
  show ?thesis
    using five zero by simp
qed

text \<open>
  C7, as the code has it. \<^verbatim>\<open>shouldRetryError(error, retryCount)\<close> is false as soon as
  \<open>retryCount \<ge> 3\<close>. Below that, with a response whose status lies in \<open>[400, 500)\<close> it is
  true exactly for 408 and 429; with a status of 500 or more it is true; with a status
  below 400 it is false. Without a response it is true exactly when \<^verbatim>\<open>isNetworkError\<close>
  recognises the error: the code is \<^verbatim>\<open>NETWORK_ERROR\<close> or \<^verbatim>\<open>ECONNABORTED\<close>, the message is
  \<^verbatim>\<open>Network Error\<close> or the name is \<^verbatim>\<open>NetworkError\<close>. So 400, 403, 404 and 422 are never
  retried, and 408, 429, 500, 502, 503 and 504 are retried while \<open>retryCount < 3\<close>.
\<close>

theorem shouldRetryError_eligibility:
  "(3 \<le> n \<longrightarrow> \<not> shouldRetryError e n)
 \<and> (n < 3 \<and> response e = Some r \<and> 400 \<le> status r \<and> status r < 500
      \<longrightarrow> (shouldRetryError e n \<longleftrightarrow> status r = 408 \<or> status r = 429))
 \<and> (n < 3 \<and> response e = Some r \<and> 500 \<le> status r \<longrightarrow> shouldRetryError e n)
 \<and> (n < 3 \<and> response e = Some r \<and> status r < 400 \<longrightarrow> \<not> shouldRetryError e n)
 \<and> (n < 3 \<and> response e = None
      \<longrightarrow> (shouldRetryError e n \<longleftrightarrow>
             code e = Some ''NETWORK_ERROR'' \<or> message e = ''Network Error''
           \<or> name e = ''NetworkError'' \<or> code e = Some ''ECONNABORTED''))
 \<and> (n < 3 \<and> response e = Some r \<and> status r \<in> {400, 403, 404, 422}
      \<longrightarrow> \<not> shouldRetryError e n)
 \<and> (n < 3 \<and> response e = Some r \<and> status r \<in> {408, 429, 500, 502, 503, 504}
      \<longrightarrow> shouldRetryError e n)"
proof -
  have exhausted: "3 \<le> n \<longrightarrow> \<not> shouldRetryError e n"
    by (simp add: shouldRetryError_exhausted)
  have with_response: "shouldRetryError e n \<longleftrightarrow> status r = 408 \<or> status r = 429 \<or> 500 \<le> status r"
    if "n < 3" "response e = Some r"
    using that by (rule shouldRetryError_status)
  have without: "shouldRetryError e n \<longleftrightarrow> isNetworkError e" if "n < 3" "response e = None"
    using that by (rule shouldRetryError_no_response)
  show ?thesis
    using exhausted with_response without
    by (auto simp: isNetworkError_def)
qed

text \<open>
  The theorem at a 503 after three retries, at 429, 404, 503 and 304 before, and at the
  timeout of axios, which has no response and the code \<^verbatim>\<open>ECONNABORTED\<close>.
\<close>

theorem shouldRetryError_eligibility_witness:
  "\<not> shouldRetryError (http_error 503) 3
 \<and> shouldRetryError (http_error 429) 2
 \<and> \<not> shouldRetryError (http_error 404) 0
 \<and> shouldRetryError (http_error 503) 0
 \<and> \<not> shouldRetryError (http_error 304) 0
 \<and> shouldRetryError \<lparr> response = None, code = Some ''ECONNABORTED'',
        message = ''timeout of 30000ms exceeded'', name = ''AxiosError'' \<rparr> 1"
  using shouldRetryError_eligibility [of 3 "http_error 503"]
    shouldRetryError_eligibility [of 2 "http_error 429" "\<lparr> status = 429 \<rparr>"]
    shouldRetryError_eligibility [of 0 "http_error 404" "\<lparr> status = 404 \<rparr>"]
    shouldRetryError_eligibility [of 0 "http_error 503" "\<lparr> status = 503 \<rparr>"]
    shouldRetryError_eligibility [of 0 "http_error 304" "\<lparr> status = 304 \<rparr>"]
    shouldRetryError_eligibility [of 1 "\<lparr> response = None, code = Some ''ECONNABORTED'',
        message = ''timeout of 30000ms exceeded'', name = ''AxiosError'' \<rparr>"]
  by (simp add: http_error_def)

text \<open>
  C7 as the specification states it asks for a retry of every failure that has no
  response. A refused connection, as the http adapter of axios reports it, has no
  response and none of the four marks of \<^verbatim>\<open>isNetworkError\<close>: it is not retried.
\<close>

theorem shouldRetryError_no_response_counterexample:
  "\<not> shouldRetryError \<lparr> response = None, code = Some ''ECONNREFUSED'',
        message = ''connect ECONNREFUSED 127.0.0.1:8000'', name = ''Error'' \<rparr> 0"
  by (simp add: shouldRetryError_def response_status_def isNetworkError_def)

text \<open>
  The number of delays is the number of retries: at most \<open>maxRetries\<close>, and at most three
  with \<^verbatim>\<open>shouldRetryError\<close>, whatever \<open>maxRetries\<close> is.
\<close>

lemma retryAsync_from_retries:
  "length (snd (retryAsync_from operation maxRetries shouldRetry random i lastError))
     \<le> maxRetries - i"
proof (induction operation maxRetries shouldRetry random i lastError
    rule: retryAsync_from.induct)
  case (1 operation maxRetries shouldRetry random i lastError)
  show ?case
  proof (cases "i \<le> maxRetries")
    case False
    then show ?thesis by (simp add: retryAsync_from.simps [of _ _ _ _ i])
  next
    case le: True
    show ?thesis
    proof (cases "operation i")
      case (Inr v)
      then show ?thesis using le by (simp add: retryAsync_from.simps [of _ _ _ _ i])
    next
      case (Inl error)
      show ?thesis
      proof (cases "i = maxRetries \<or> \<not> shouldRetry error i")
        case True
        then show ?thesis
          using le Inl by (simp add: retryAsync_from.simps [of _ _ _ _ i])
      next
        case False
        then have "length (snd (retryAsync_from operation maxRetries shouldRetry random (Suc i)
            (Some error))) \<le> maxRetries - Suc i"
          using "1.IH" [OF le Inl _ refl] by simp
        then show ?thesis
          using le Inl False
          by (simp add: retryAsync_from.simps [of _ _ _ _ i] Let_def case_prod_beta) arith
      qed
    qed
  qed
qed

lemma retryAsync_retries:
  "length (snd (retryAsync operation maxRetries shouldRetry random)) \<le> maxRetries"
  using retryAsync_from_retries [of operation maxRetries shouldRetry random 0 None]
  by (simp add: retryAsync_def)

lemma retryAsync_from_default_policy:
  "length (snd (retryAsync_from operation maxRetries shouldRetryError random i lastError))
     \<le> 3 - i"
proof (induction operation maxRetries "shouldRetryError" random i lastError
    rule: retryAsync_from.induct)
  case (1 operation maxRetries random i lastError)
  show ?case
  proof (cases "i \<le> maxRetries")
    case False
    then show ?thesis by (simp add: retryAsync_from.simps [of _ _ _ _ i])
  next
    case le: True
    show ?thesis
    proof (cases "operation i")
      case (Inr v)
      then show ?thesis using le by (simp add: retryAsync_from.simps [of _ _ _ _ i])
    next
      case (Inl error)
      show ?thesis
      proof (cases "i = maxRetries \<or> \<not> shouldRetryError error i")
        case True
        then show ?thesis
          using le Inl by (simp add: retryAsync_from.simps [of _ _ _ _ i])
      next
        case False
        then have "i < 3"
          using shouldRetryError_exhausted [of i error] by (cases "3 \<le> i") auto
        moreover have "length (snd (retryAsync_from operation maxRetries shouldRetryError random
            (Suc i) (Some error))) \<le> 3 - Suc i"
          using "1.hyps" [OF le Inl _ refl] False by simp
        ultimately show ?thesis
          using le Inl False
          by (simp add: retryAsync_from.simps [of _ _ _ _ i] Let_def case_prod_beta)
      qed
    qed
  qed
qed

lemma retryAsync_default_policy:
  "length (snd (retryAsync operation maxRetries shouldRetryError random)) \<le> 3"
  using retryAsync_from_default_policy [of operation maxRetries random 0 None]
  by (simp add: retryAsync_def)

section \<open>Properties of the expiry predicate\<close>

lemmas decode_simps =
  payload_segment_def atob_def base64url_decode_def strip_padding_def ascii_whitespace_def
  base64_value_def base64url_value_def char_of_def bit_0


lemma isTokenExpired_ctx_eq: "isTokenExpired_ctx P now t = isTokenExpired P now t"
  by (simp add: isTokenExpired_ctx_def isTokenExpired_def)


lemma isTokenExpired_numeric:
  assumes "parse_payload P t = Some payload"
    and "get_prop payload ''exp'' = Some (Val (JNum e))"
  shows "isTokenExpired P now t \<longleftrightarrow> e < binary64 (binary64 (real_of_int now / 1000) + 30)"
  using assms by (simp add: isTokenExpired_def)





lemma example_token_no_dot: "parse_payload P ''not-a-token'' = None"
  by (simp add: parse_payload_def decode_simps)


lemma example_token_slash_atob:
  "parse_payload JSON_examples ''header.eyJleHAiOjk5OTk5OTk5OTksIm4iOiI/PyJ9.signature''
     = Some (JObj [(''exp'', JNum 9999999999), (''n'', JStr ''??'')])"
  by (simp add: parse_payload_def JSON_examples_def decode_simps)

lemma example_token_slash_base64url:
  "base64url_payload P ''header.eyJleHAiOjk5OTk5OTk5OTksIm4iOiI/PyJ9.signature'' = None"
  by (simp add: base64url_payload_def decode_simps)






text \<open>
  A segment of the url-safe alphabet that contains \<^verbatim>\<open>-\<close> or \<^verbatim>\<open>_\<close> makes \<^verbatim>\<open>atob\<close> throw, so
  that the token counts as expired whatever its \<^verbatim>\<open>exp\<close>; the comment above the function
  speaks of decoding a JWT, whose segments are base64url.
\<close>

lemma sextets_None: "c \<in> set s \<Longrightarrow> val c = None \<Longrightarrow> sextets val s = None"
  by (induction s) (auto split: option.splits)

lemma strip_padding_keeps:
  assumes "c \<in> set s" and "c \<noteq> CHR ''=''"
  shows "c \<in> set (strip_padding s)"
proof -
  have "c \<in> set (take n s)" if "set (drop n s) \<subseteq> {CHR ''=''}" for n
  proof -
    have "set s = set (take n s) \<union> set (drop n s)"
      by (metis append_take_drop_id set_append)
    then show ?thesis using assms that by auto
  qed
  note keep = this
  have two: "set (drop (length s - 2) s) \<subseteq> {CHR ''=''}" if "drop (length s - 2) s = ''==''"
    using that by simp
  have one: "set (drop (length s - 1) s) \<subseteq> {CHR ''=''}" if "drop (length s - 1) s = ''=''"
    using that by simp
  show ?thesis
    using assms(1) keep [OF two] keep [OF one] by (simp add: strip_padding_def)
qed

lemma atob_rejects:
  assumes "c \<in> set data" and "base64_value c = None" and "\<not> ascii_whitespace c"
    and "c \<noteq> CHR ''=''"
  shows "atob data = None"
proof -
  have "c \<in> set (filter (\<lambda>c. \<not> ascii_whitespace c) data)"
    using assms(1,3) by simp
  then have "c \<in> set (strip_padding (filter (\<lambda>c. \<not> ascii_whitespace c) data))"
    using assms(4) by (rule strip_padding_keeps)
  then have "sextets base64_value (strip_padding (filter (\<lambda>c. \<not> ascii_whitespace c) data)) = None"
    using assms(2) by (rule sextets_None)
  then show ?thesis
    by (simp add: atob_def Let_def)
qed

lemma url_safe_segment_expired:
  assumes "CHR ''-'' \<in> set (payload_segment t) \<or> CHR ''_'' \<in> set (payload_segment t)"
  shows "isTokenExpired P now t"
proof -
  have "atob (payload_segment t) = None"
    using assms
      atob_rejects [of "CHR ''-''" "payload_segment t"]
      atob_rejects [of "CHR ''_''" "payload_segment t"]
    by (auto simp: base64_value_def ascii_whitespace_def)
  then show ?thesis
    by (simp add: isTokenExpired_def parse_payload_def)
qed

lemma example_token_url_atob:
  "parse_payload P ''header.eyJleHAiOjk5OTk5OTk5OTksIm4iOiI_PyJ9.signature'' = None"
  by (simp add: parse_payload_def decode_simps)

lemma example_token_url_base64url:
  "base64url_payload JSON_examples ''header.eyJleHAiOjk5OTk5OTk5OTksIm4iOiI_PyJ9.signature''
     = Some (JObj [(''exp'', JNum 9999999999), (''n'', JStr ''??'')])"
  by (simp add: base64url_payload_def JSON_examples_def decode_simps)

section \<open>Properties of the renewal timer\<close>

lemma getTokenExpiration_undecodable: "parse_payload P t = None \<Longrightarrow> getTokenExpiration P t = None"
  by (simp add: getTokenExpiration_def)

lemma getTokenExpiration_numeric:
  assumes "parse_payload P t = Some payload"
    and "get_prop payload ''exp'' = Some (Val (JNum e))"
  shows "getTokenExpiration P t = Some (Num (binary64 (e * 1000)))"
  using assms by (simp add: getTokenExpiration_def)


lemma cancel_pending_fields:
  "refreshTimeoutRef (cancel_pending s) = refreshTimeoutRef s"
  "nextHandle (cancel_pending s) = nextHandle s"
  "set (timers (cancel_pending s)) \<subseteq> set (timers s)"
  by (auto simp: cancel_pending_def clearTimeout_def split: option.splits)

lemma cancel_pending_not_pending:
  assumes "refreshTimeoutRef s = Some h" and "h \<noteq> 0"
  shows "h \<notin> fst ` set (timers (cancel_pending s))"
  using assms by (auto simp: cancel_pending_def clearTimeout_def)

lemma cancel_pending_wf:
  assumes "timers_wf s"
  shows "timers (cancel_pending s) = []"
proof (cases "timers s")
  case Nil
  then show ?thesis
    by (simp add: cancel_pending_def clearTimeout_def split: option.splits)
next
  case (Cons p ps)
  then obtain h where h: "refreshTimeoutRef s = Some h" "h \<noteq> 0"
    using assms by (cases p) (auto simp: timers_wf_def)
  have "\<forall>q \<in> set (timers s). fst q = h"
    using assms h by (auto simp: timers_wf_def list_all_iff)
  then have "filter (\<lambda>(k, d). k \<noteq> h) (timers s) = []"
    by (auto simp: filter_empty_conv)
  then show ?thesis
    using h by (simp add: cancel_pending_def clearTimeout_def)
qed

text \<open>Below \<open>2 ^ 31\<close> milliseconds a timer waits the whole milliseconds of the delay.\<close>

lemma timer_timeout_small:
  assumes "0 \<le> d" and "d < 2 ^ 31"
  shows "timer_timeout d = \<lfloor>d\<rfloor>"
proof -
  have "0 \<le> \<lfloor>d\<rfloor>" using assms(1) by simp
  moreover have "\<lfloor>d\<rfloor> < 2 ^ 31"
    using assms(2) by (simp add: floor_less_iff)
  ultimately show ?thesis
    using assms(1) by (simp add: timer_timeout_def ToInt32_def Let_def)
qed

lemma timer_timeout_of_int:
  assumes "0 \<le> m" and "m < 2 ^ 31"
  shows "timer_timeout (of_int m) = m"
  using timer_timeout_small [of "of_int m"] assms by simp

lemma scheduleTokenRefresh_null:
  assumes "getTokenExpiration P t = None"
  shows "scheduleTokenRefresh P now t s = cancel_pending s"
  using assms by (simp add: scheduleTokenRefresh_def cancel_pending_def)

lemma scheduleTokenRefresh_number:
  assumes "getTokenExpiration P t = Some (Num x)" and "x \<noteq> 0"
  shows "scheduleTokenRefresh P now t s =
    (cancel_pending s)\<lparr>timers := timers (cancel_pending s)
         @ [(nextHandle s,
             timer_timeout (max (binary64 (binary64 (x - real_of_int now) - 300000)) 60000))],
       nextHandle := Suc (nextHandle s),
       refreshTimeoutRef := Some (nextHandle s)\<rparr>"
proof -
  have "max (binary64 (binary64 (x - real_of_int now) - 300000)) 60000 > 0" by simp
  then show ?thesis
    using assms
    by (simp add: scheduleTokenRefresh_def cancel_pending_def [symmetric] setTimeout_def
        cancel_pending_fields Let_def)
qed

lemma scheduleTokenRefresh_falsy:
  assumes "getTokenExpiration P t = Some x" and "\<not> truthy_number x"
  shows "scheduleTokenRefresh P now t s = cancel_pending s"
  using assms by (simp add: scheduleTokenRefresh_def cancel_pending_def)

lemma scheduleTokenRefresh_wf:
  assumes "timers_wf s"
  shows "timers_wf (scheduleTokenRefresh P now t s)"
proof -
  have c: "timers_wf (cancel_pending s)"
    using assms cancel_pending_wf [OF assms]
    by (simp add: timers_wf_def cancel_pending_fields)
  show ?thesis
  proof (cases "getTokenExpiration P t")
    case None
    then show ?thesis using c by (simp add: scheduleTokenRefresh_null)
  next
    case (Some x)
    show ?thesis
    proof (cases "truthy_number x")
      case False
      then show ?thesis using c Some by (simp add: scheduleTokenRefresh_falsy)
    next
      case True
      then obtain v where "x = Num v" "v \<noteq> 0" by (cases x) auto
      then show ?thesis
        using assms Some cancel_pending_wf [OF assms]
        by (simp add: scheduleTokenRefresh_number timers_wf_def cancel_pending_fields)
    qed
  qed
qed

text \<open>The provider keeps its timers well formed.\<close>

lemma logout_wf:
  assumes "timers_wf s"
  shows "timers_wf (logout s)" and "timers (logout s) = []"
proof -
  have t: "timers (logout s) = timers (cancel_pending s)"
    by (simp add: logout_def cancel_pending_def Let_def clearTimeout_def split: option.splits)
  show "timers (logout s) = []"
    using t cancel_pending_wf [OF assms] by simp
  moreover have "nextHandle (logout s) = nextHandle s"
    by (simp add: logout_def Let_def clearTimeout_def split: option.splits)
  ultimately show "timers_wf (logout s)"
    using assms by (simp add: timers_wf_def)
qed

lemma refreshToken_wf:
  assumes "timers_wf s"
  shows "timers_wf (snd (refreshToken P now now' reply s))"
proof -
  have a: "timers_wf (s\<lparr>refreshCalls := Suc (refreshCalls s)\<rparr>)"
    using assms by (simp add: timers_wf_def)
  have b: "timers_wf (s\<lparr>refreshCalls := n, token := x, user := y, localStorage := z\<rparr>)"
    for n x y z
    using assms by (simp add: timers_wf_def)
  show ?thesis
    using assms logout_wf(1) [OF a] scheduleTokenRefresh_wf [OF b]
    by (auto simp: refreshToken_def Let_def split: option.splits sum.splits prod.splits)
qed




lemma initial_auth_wf: "timers_wf (initial_auth store)"
  by (simp add: timers_wf_def initial_auth_def)

lemma example_token_1600:
  "parse_payload JSON_examples ''header.eyJleHAiOjE2MDB9.signature''
     = Some (JObj [(''exp'', JNum 1600)])"
  by (simp add: parse_payload_def JSON_examples_def decode_simps)


lemma example_timer_1600:
  "scheduleTokenRefresh JSON_examples 1000000 ''header.eyJleHAiOjE2MDB9.signature'' s =
    (cancel_pending s)\<lparr>timers := timers (cancel_pending s) @ [(nextHandle s, 300000)],
       nextHandle := Suc (nextHandle s),
       refreshTimeoutRef := Some (nextHandle s)\<rparr>"
proof -
  have g: "get_prop (JObj [(''exp'', JNum 1600)]) ''exp'' = Some (Val (JNum 1600))"
    by simp
  have x: "getTokenExpiration JSON_examples ''header.eyJleHAiOjE2MDB9.signature''
      = Some (Num 1600000)"
    using getTokenExpiration_numeric [OF example_token_1600 g] by simp
  have t: "timer_timeout 300000 = 300000"
    using timer_timeout_of_int [of 300000] by simp
  show ?thesis
    using scheduleTokenRefresh_number [OF x, of 1000000 s] by (simp add: t)
qed




text \<open>
  C10, as the code has it. For every token whose middle segment makes \<^verbatim>\<open>atob\<close> or
  \<^verbatim>\<open>JSON.parse\<close> throw, \<^verbatim>\<open>getTokenExpiration\<close> returns \<^verbatim>\<open>null\<close>, and
  \<^verbatim>\<open>scheduleTokenRefresh\<close> does no more than cancel the timer of \<^verbatim>\<open>refreshTimeoutRef\<close>: no
  timer is added, no handle is used, the timer of the reference is no longer pending, and
  no timer of the provider is left. Both functions return: the exception stays inside
  \<^verbatim>\<open>getTokenExpiration\<close>.
\<close>

theorem scheduleTokenRefresh_undecodable:
  assumes "parse_payload P t = None"
  shows "getTokenExpiration P t = None
       \<and> scheduleTokenRefresh P now t s = cancel_pending s
       \<and> set (timers (scheduleTokenRefresh P now t s)) \<subseteq> set (timers s)
       \<and> nextHandle (scheduleTokenRefresh P now t s) = nextHandle s
       \<and> (\<forall>h. refreshTimeoutRef s = Some h \<and> h \<noteq> 0
              \<longrightarrow> h \<notin> fst ` set (timers (scheduleTokenRefresh P now t s)))
       \<and> (timers_wf s \<longrightarrow> timers (scheduleTokenRefresh P now t s) = [])"
proof -
  have null: "getTokenExpiration P t = None"
    using assms by (rule getTokenExpiration_undecodable)
  have eq: "scheduleTokenRefresh P now t s = cancel_pending s"
    using null by (rule scheduleTokenRefresh_null)
  show ?thesis
    using null eq cancel_pending_fields [of s] cancel_pending_not_pending [of s]
      cancel_pending_wf [of s]
    by simp
qed

text \<open>
  The theorem at a provider that holds the timer of a token expiring at 1600 seconds and
  is then given a token without a dot.
\<close>

theorem scheduleTokenRefresh_undecodable_witness:
  "parse_payload JSON_examples ''not-a-token'' = None
 \<and> timers (scheduleTokenRefresh JSON_examples 1000000 ''header.eyJleHAiOjE2MDB9.signature''
      (initial_auth Map.empty)) = [(1, 300000)]
 \<and> timers_wf (scheduleTokenRefresh JSON_examples 1000000 ''header.eyJleHAiOjE2MDB9.signature''
      (initial_auth Map.empty))
 \<and> getTokenExpiration JSON_examples ''not-a-token'' = None
 \<and> timers (scheduleTokenRefresh JSON_examples 1000000 ''not-a-token''
      (scheduleTokenRefresh JSON_examples 1000000 ''header.eyJleHAiOjE2MDB9.signature''
        (initial_auth Map.empty))) = []"
proof -
  let ?s1 = "scheduleTokenRefresh JSON_examples 1000000 ''header.eyJleHAiOjE2MDB9.signature''
      (initial_auth Map.empty)"
  have t1: "timers ?s1 = [(1, 300000)]"
    using cancel_pending_wf [OF initial_auth_wf [of Map.empty]]
    by (simp add: example_timer_1600 initial_auth_def cancel_pending_fields)
  have wf1: "timers_wf ?s1"
    using initial_auth_wf by (rule scheduleTokenRefresh_wf)
  note u = scheduleTokenRefresh_undecodable [OF example_token_no_dot [of JSON_examples],
        where now = 1000000 and s = ?s1]
  from u have null: "getTokenExpiration JSON_examples ''not-a-token'' = None"
    by blast
  from u have "timers_wf ?s1 \<longrightarrow>
      timers (scheduleTokenRefresh JSON_examples 1000000 ''not-a-token'' ?s1) = []"
    by blast
  with wf1 have none: "timers (scheduleTokenRefresh JSON_examples 1000000 ''not-a-token'' ?s1) = []"
    by blast
  show ?thesis
    using null none t1 wf1 example_token_no_dot [of JSON_examples] by blast
qed

text \<open>
  C10 as the specification states it speaks of the segments that are not base64url JSON.
  The segment \<^verbatim>\<open>eyJleHAiOjk5OTk5OTk5OTksIm4iOiI/PyJ9\<close> is none, since \<^verbatim>\<open>/\<close> is not in the
  url-safe alphabet; \<^verbatim>\<open>atob\<close> decodes it, \<^verbatim>\<open>getTokenExpiration\<close> returns a number and a
  timer is armed: \<^verbatim>\<open>setTimeout\<close> is called with 9999998699000 milliseconds, of which the
  platform keeps 1314833912.
\<close>

theorem scheduleTokenRefresh_undecodable_counterexample:
  "base64url_payload JSON_examples ''header.eyJleHAiOjk5OTk5OTk5OTksIm4iOiI/PyJ9.signature''
     = None
 \<and> getTokenExpiration JSON_examples ''header.eyJleHAiOjk5OTk5OTk5OTksIm4iOiI/PyJ9.signature''
     = Some (Num 9999999999000)
 \<and> timers (scheduleTokenRefresh JSON_examples 1000000
      ''header.eyJleHAiOjk5OTk5OTk5OTksIm4iOiI/PyJ9.signature'' (initial_auth Map.empty))
     = [(1, timer_timeout 9999998699000)]
 \<and> timer_timeout 9999998699000 = 1314833912"
proof -
  have x: "getTokenExpiration JSON_examples
      ''header.eyJleHAiOjk5OTk5OTk5OTksIm4iOiI/PyJ9.signature'' = Some (Num 9999999999000)"
    using getTokenExpiration_numeric [OF example_token_slash_atob, of 9999999999] by simp
  have "timers (scheduleTokenRefresh JSON_examples 1000000
      ''header.eyJleHAiOjk5OTk5OTk5OTksIm4iOiI/PyJ9.signature'' (initial_auth Map.empty))
     = [(1, timer_timeout 9999998699000)]"
    using cancel_pending_wf [OF initial_auth_wf [of Map.empty]]
    by (simp add: scheduleTokenRefresh_number [OF x] initial_auth_def cancel_pending_fields)
  moreover have "timer_timeout 9999998699000 = 1314833912"
    by (simp add: timer_timeout_def ToInt32_def)
  ultimately show ?thesis
    using x example_token_slash_base64url [of JSON_examples] by simp
qed

section \<open>Properties of the start of the provider\<close>

lemma isTokenExpired_ctx_later:
  assumes "isTokenExpired_ctx P now1 t" and "now1 \<le> now2"
  shows "isTokenExpired_ctx P now2 t"
proof (cases "parse_payload P t")
  case None
  then show ?thesis by (simp add: isTokenExpired_ctx_def)
next
  case (Some payload)
  show ?thesis
  proof (cases "get_prop payload ''exp''")
    case None
    then show ?thesis using Some by (simp add: isTokenExpired_ctx_def)
  next
    case e: (Some e)
    show ?thesis
    proof (cases "ToNumber P e")
      case NaN
      then show ?thesis using assms Some e by (simp add: isTokenExpired_ctx_def)
    next
      case (Num x)
      have "real_of_int now1 / 1000 \<le> real_of_int now2 / 1000"
        using assms(2) by simp
      then have "binary64 (real_of_int now1 / 1000) + 30 \<le> binary64 (real_of_int now2 / 1000) + 30"
        by (simp add: binary64_mono)
      then have "binary64 (binary64 (real_of_int now1 / 1000) + 30)
          \<le> binary64 (binary64 (real_of_int now2 / 1000) + 30)"
        by (rule binary64_mono)
      then show ?thesis
        using assms(1) Some e Num by (simp add: isTokenExpired_ctx_def)
    qed
  qed
qed

lemma refreshToken_expired:
  assumes "localStorage s ''token'' = Some t" and "isTokenExpired_ctx P now t"
  shows "refreshToken P now now' reply s = (False, s)"
  using assms by (simp add: refreshToken_def)

lemma logout_fields:
  "token (logout s) = None"
  "user (logout s) = None"
  "localStorage (logout s) ''token'' = None"
  "localStorage (logout s) ''user'' = None"
  "refreshCalls (logout s) = refreshCalls s"
  "navigations (logout s) = navigations s @ [''/login'']"
  by (simp_all add: logout_def clearTimeout_def Let_def split: option.splits)

text \<open>
  With a stored user and a stored token that \<^verbatim>\<open>isTokenExpired\<close> calls expired,
  \<^verbatim>\<open>initializeAuth\<close> calls \<^verbatim>\<open>refreshToken\<close>, which finds the same token expired and returns
  \<^verbatim>\<open>false\<close> before \<^verbatim>\<open>authAPI.refresh()\<close>; then \<^verbatim>\<open>logout\<close> runs. Whatever the server would
  have replied, no refresh call is made and the session is not authenticated.
\<close>

lemma initializeAuth_expired:
  assumes "localStorage s ''token'' = Some t" and "localStorage s ''user'' = Some u"
    and "valid_stored (Some t)" and "valid_stored (Some u)"
    and "isTokenExpired_ctx P now1 t" and "now1 \<le> now2"
  shows "initializeAuth P now1 now2 now3 reply s = (logout s)\<lparr>isLoading := False\<rparr>"
    and "refreshCalls (initializeAuth P now1 now2 now3 reply s) = refreshCalls s"
    and "\<not> isAuthenticated P now4 (initializeAuth P now1 now2 now3 reply s)"
proof -
  have later: "isTokenExpired_ctx P now2 t"
    using assms(5,6) by (rule isTokenExpired_ctx_later)
  show eq: "initializeAuth P now1 now2 now3 reply s = (logout s)\<lparr>isLoading := False\<rparr>"
    using assms(1-5) refreshToken_expired [OF assms(1) later]
    by (simp add: initializeAuth_def)
  show "refreshCalls (initializeAuth P now1 now2 now3 reply s) = refreshCalls s"
    by (simp add: eq logout_fields)
  show "\<not> isAuthenticated P now4 (initializeAuth P now1 now2 now3 reply s)"
    by (simp add: eq isAuthenticated_def logout_fields)
qed

lemma example_token_900:
  "parse_payload JSON_examples ''header.eyJleHAiOjkwMH0.signature''
     = Some (JObj [(''exp'', JNum 900)])"
  by (simp add: parse_payload_def JSON_examples_def decode_simps)

text \<open>
  C9 on the code. The store holds a user and a token with \<^verbatim>\<open>exp = 900\<close>, the clock reads
  1000 seconds (\<^verbatim>\<open>exp = now - 100\<close>), and the server would answer a refresh call with a
  token that expires at 1600 seconds. The code makes no refresh call: it logs out, the
  store is cleared, the route \<^verbatim>\<open>/login\<close> is taken and the session is not authenticated.
\<close>

theorem initializeAuth_expired_token_no_refresh:
  \<open>(let s = initializeAuth JSON_examples 1000000 1000001 1000200
        (Inr (''header.eyJleHAiOjE2MDB9.signature'', JObj [(''id'', JStr ''1'')]))
        (initial_auth [''token'' \<mapsto> ''header.eyJleHAiOjkwMH0.signature'',
                       ''user'' \<mapsto> ''{"id":"1"}''])
    in refreshCalls s = 0
     \<and> token s = None \<and> user s = None
     \<and> localStorage s ''token'' = None \<and> localStorage s ''user'' = None
     \<and> timers s = []
     \<and> navigations s = [''/login'']
     \<and> isLoading s = False
     \<and> \<not> isAuthenticated JSON_examples 1000300 s)\<close>
proof -
  let ?s0 = \<open>initial_auth [''token'' \<mapsto> ''header.eyJleHAiOjkwMH0.signature'',
                       ''user'' \<mapsto> ''{"id":"1"}'']\<close>
  have expired: "isTokenExpired_ctx JSON_examples 1000000 ''header.eyJleHAiOjkwMH0.signature''"
    using isTokenExpired_numeric [OF example_token_900, of 900 1000000]
    by (simp add: isTokenExpired_ctx_eq)
  have tk: "localStorage ?s0 ''token'' = Some ''header.eyJleHAiOjkwMH0.signature''"
    by (simp add: initial_auth_def)
  have us: \<open>localStorage ?s0 ''user'' = Some ''{"id":"1"}''\<close>
    by (simp add: initial_auth_def)
  have v1: "valid_stored (Some ''header.eyJleHAiOjkwMH0.signature'')"
    by (simp add: valid_stored_def truthy_string_def)
  have v2: \<open>valid_stored (Some ''{"id":"1"}'')\<close>
    by (simp add: valid_stored_def truthy_string_def)
  have le: "(1000000::int) \<le> 1000001" by simp
  note r = initializeAuth_expired [OF tk us v1 v2 expired le]
  show ?thesis
    unfolding Let_def
    by (simp add: r(1) logout_fields isAuthenticated_def) (simp add: logout_def initial_auth_def)
qed

section \<open>Properties of the API client\<close>

subsection \<open>What the parts of the handler leave alone\<close>

lemma run_hop_fields:
  "localStorage (run_hop h e s) = localStorage s"
  "isRefreshing (run_hop h e s) = isRefreshing s"
  "failedQueue (run_hop h e s) = failedQueue s"
  "retry (run_hop h e s) = retry s"
  "url (run_hop h e s) = url s"
  "known (run_hop h e s) = known s"
  "awaiting (run_hop h e s) = awaiting s"
  "refreshPosts (run_hop h e s) = refreshPosts s"
  "authorization (run_hop h e s) = authorization s"
  "inflight (run_hop h e s) = inflight s"
  "sent (run_hop h e s) = sent s"
  "settlements (run_hop h e s) = settlements s"
  "settled (run_hop h e s) = settled s"
  "wrappers (run_hop h e s) = wrappers s"
  by (cases h; simp add: run_hop_def handleApiError_def)+

lemma run_hop_dispatched:
  "dispatched (run_hop h e s)
     = dispatched s @ (if h = RunCatch then [ApiErrorEvent e (Some ''Token refresh failed'')] else [])"
  by (cases h) (simp_all add: run_hop_def handleApiError_def)

lemma deliver_rejection_fields:
  "localStorage (deliver_rejection c e s) = localStorage s"
  "isRefreshing (deliver_rejection c e s) = isRefreshing s"
  "failedQueue (deliver_rejection c e s) = failedQueue s"
  "retry (deliver_rejection c e s) = retry s"
  "url (deliver_rejection c e s) = url s"
  "known (deliver_rejection c e s) = known s"
  "awaiting (deliver_rejection c e s) = awaiting s"
  "refreshPosts (deliver_rejection c e s) = refreshPosts s"
  "authorization (deliver_rejection c e s) = authorization s"
  "inflight (deliver_rejection c e s) = inflight s"
  "sent (deliver_rejection c e s) = sent s"
  "settlements (deliver_rejection c e s) = settlements s"
  "dispatched (deliver_rejection c e s) = dispatched s"
  "settled (deliver_rejection c e s) = settled s @ [(c, Rejected e)]"
  by (simp_all add: deliver_rejection_def)

text \<open>The promise jobs touch no more than the events, the deliveries and the wrappers.\<close>

lemma microtasks_fields:
  "localStorage (microtasks jobs s) = localStorage s"
  "isRefreshing (microtasks jobs s) = isRefreshing s"
  "failedQueue (microtasks jobs s) = failedQueue s"
  "retry (microtasks jobs s) = retry s"
  "url (microtasks jobs s) = url s"
  "known (microtasks jobs s) = known s"
  "awaiting (microtasks jobs s) = awaiting s"
  "refreshPosts (microtasks jobs s) = refreshPosts s"
  "authorization (microtasks jobs s) = authorization s"
  "inflight (microtasks jobs s) = inflight s"
  "sent (microtasks jobs s) = sent s"
  "settlements (microtasks jobs s) = settlements s"
  by (induction jobs s rule: microtasks.induct;
      simp add: run_hop_fields deliver_rejection_fields)+

text \<open>Every job ends with one rejection delivered to the application, and only jobs do.\<close>

lemma microtasks_settled:
  "mset (settled (microtasks jobs s))
     = mset (settled s) + mset (map (\<lambda>(c, e, hs). (c, Rejected e)) jobs)"
  by (induction jobs s rule: microtasks.induct)
    (simp_all add: run_hop_fields deliver_rejection_fields)

lemma microtasks_settled_grows:
  "\<exists>rest. settled (microtasks jobs s) = settled s @ rest"
  by (induction jobs s rule: microtasks.induct)
    (auto simp: run_hop_fields deliver_rejection_fields)



text \<open>One chain alone: its handlers of \<^verbatim>\<open>.catch\<close> run, then the rejection is delivered.\<close>

lemma microtasks_single:
  "settled (microtasks [(c, e, hs)] s) = settled s @ [(c, Rejected e)]"
  "dispatched (microtasks [(c, e, hs)] s)
     = dispatched s @ replicate (count_list hs RunCatch)
         (ApiErrorEvent e (Some ''Token refresh failed''))"
proof -
  have "settled (microtasks [(c, e, hs)] s) = settled s @ [(c, Rejected e)]
    \<and> dispatched (microtasks [(c, e, hs)] s)
      = dispatched s @ replicate (count_list hs RunCatch)
          (ApiErrorEvent e (Some ''Token refresh failed''))"
  proof (induction hs arbitrary: s rule: induct_list012)
    case 1
    then show ?case by (simp add: deliver_rejection_fields)
  next
    case (2 h)
    then show ?case
      by (simp add: deliver_rejection_fields run_hop_fields run_hop_dispatched)
  next
    case (3 h h' hs)
    show ?case
      using "3.IH"(2) [of "run_hop h e s"]
      by (simp add: run_hop_fields run_hop_dispatched replicate_app_Cons_same)
  qed
  then show "settled (microtasks [(c, e, hs)] s) = settled s @ [(c, Rejected e)]"
    and "dispatched (microtasks [(c, e, hs)] s)
     = dispatched s @ replicate (count_list hs RunCatch)
         (ApiErrorEvent e (Some ''Token refresh failed''))"
    by simp_all
qed

lemma count_catch_handlers:
  "count_list handler_hops RunCatch = 0"
  "count_list (outer_hops n) RunCatch = n"
  by (induction n) (simp_all add: handler_hops_def outer_hops_def wrapper_hops_def)

lemma reject_to_application_fields:
  "localStorage (reject_to_application c e s) = localStorage s"
  "isRefreshing (reject_to_application c e s) = isRefreshing s"
  "failedQueue (reject_to_application c e s) = failedQueue s"
  "retry (reject_to_application c e s) = retry s"
  "url (reject_to_application c e s) = url s"
  "known (reject_to_application c e s) = known s"
  "awaiting (reject_to_application c e s) = awaiting s"
  "refreshPosts (reject_to_application c e s) = refreshPosts s"
  "authorization (reject_to_application c e s) = authorization s"
  "inflight (reject_to_application c e s) = inflight s"
  "sent (reject_to_application c e s) = sent s"
  "settlements (reject_to_application c e s) = settlements s"
  "settled (reject_to_application c e s) = settled s @ [(c, Rejected e)]"
  by (simp_all add: reject_to_application_def microtasks_fields microtasks_single)

lemma reject_to_application_dispatched:
  "dispatched (reject_to_application c e s)
     = dispatched s @ replicate (wrappers s c) (ApiErrorEvent e (Some ''Token refresh failed''))"
  by (simp add: reject_to_application_def microtasks_single count_catch_handlers)

lemma apiClient_fields:
  "localStorage (apiClient P now c s) = localStorage s"
  "isRefreshing (apiClient P now c s) = isRefreshing s"
  "failedQueue (apiClient P now c s) = failedQueue s"
  "retry (apiClient P now c s) = retry s"
  "url (apiClient P now c s) = url s"
  "known (apiClient P now c s) = known s"
  "awaiting (apiClient P now c s) = awaiting s"
  "refreshPosts (apiClient P now c s) = refreshPosts s"
  "dispatched (apiClient P now c s) = dispatched s"
  "settlements (apiClient P now c s) = settlements s"
  "settled (apiClient P now c s) = settled s"
  "wrappers (apiClient P now c s) = wrappers s"
  "inflight (apiClient P now c s) = inflight s @ [c]"
  by (simp_all add: apiClient_def request_interceptor_def Let_def split: option.splits)

text \<open>
  A request whose header is the stored token keeps it through the request interceptor,
  whether the interceptor takes the token for expired or not.
\<close>

lemma apiClient_sent_stored_token:
  assumes "localStorage s ''token'' = Some tok"
    and "authorization s c = Some (''Bearer '' @ tok)"
  shows "sent (apiClient P now c s) = sent s @ [(c, Some (''Bearer '' @ tok))]"
  using assms by (simp add: apiClient_def request_interceptor_def Let_def)

lemma then_callbacks_fields:
  "localStorage (then_callbacks P now xs s) = localStorage s"
  "isRefreshing (then_callbacks P now xs s) = isRefreshing s"
  "failedQueue (then_callbacks P now xs s) = failedQueue s"
  "retry (then_callbacks P now xs s) = retry s"
  "url (then_callbacks P now xs s) = url s"
  "known (then_callbacks P now xs s) = known s"
  "awaiting (then_callbacks P now xs s) = awaiting s"
  "refreshPosts (then_callbacks P now xs s) = refreshPosts s"
  "settlements (then_callbacks P now xs s) = settlements s"
  "settled (then_callbacks P now xs s) = settled s"
  "dispatched (then_callbacks P now xs s) = dispatched s"
  by (induction P now xs s rule: then_callbacks.induct; simp add: apiClient_fields)+

lemma forEach_settle_calls: "map fst (forEach_settle error tok q) = q"
  by (induction q) simp_all

lemma forEach_settle_values:
  "map snd (forEach_settle error tok q)
     = replicate (length q) (case error of Some e \<Rightarrow> Reject e | None \<Rightarrow> Resolve tok)"
  by (induction q) simp_all

lemma forEach_settle_reject:
  "forEach_settle (Some e) tok q = map (\<lambda>c. (c, Reject e)) q"
  by (induction q) simp_all

lemma forEach_settle_resolve:
  "forEach_settle None tok q = map (\<lambda>c. (c, Resolve tok)) q"
  by (induction q) simp_all

lemma rejection_jobs_rejected:
  "rejection_jobs (map (\<lambda>c. (c, Reject e)) q) s
     = map (\<lambda>c. (c, e, outer_hops (wrappers s c))) q"
  by (induction q) simp_all

lemma then_callbacks_resolved:
  assumes "localStorage s ''token'' = Some tok"
  shows "sent (then_callbacks P now (map (\<lambda>c. (c, Resolve (Some tok))) q) s)
           = sent s @ map (\<lambda>c. (c, Some (''Bearer '' @ tok))) q"
    and "inflight (then_callbacks P now (map (\<lambda>c. (c, Resolve (Some tok))) q) s) = inflight s @ q"
  using assms
  by (induction q arbitrary: s;
      simp add: apiClient_fields apiClient_sent_stored_token bearer_def)+

subsection \<open>The three ends of an episode\<close>

lemma refresh_succeeded_result:
  "isRefreshing (refresh_succeeded P now c tok u s) = False"
  "failedQueue (refresh_succeeded P now c tok u s) = []"
  "awaiting (refresh_succeeded P now c tok u s) = awaiting s"
  "refreshPosts (refresh_succeeded P now c tok u s) = refreshPosts s"
  "retry (refresh_succeeded P now c tok u s) = retry s"
  "localStorage (refresh_succeeded P now c tok u s)
     = (localStorage s)(''token'' \<mapsto> tok, ''user'' \<mapsto> JSON_stringify P u)"
  "sent (refresh_succeeded P now c tok u s)
     = sent s @ (c, Some (''Bearer '' @ tok))
         # map (\<lambda>q. (q, Some (''Bearer '' @ tok))) (failedQueue s)"
  "inflight (refresh_succeeded P now c tok u s) = inflight s @ c # failedQueue s"
  "settlements (refresh_succeeded P now c tok u s)
     = settlements s @ map (\<lambda>q. (q, Resolve (Some tok))) (failedQueue s)"
  "settled (refresh_succeeded P now c tok u s) = settled s"
  "dispatched (refresh_succeeded P now c tok u s) = dispatched s"
  by (simp_all add: refresh_succeeded_def processQueue_def Let_def forEach_settle_resolve
      then_callbacks_fields then_callbacks_resolved apiClient_fields apiClient_sent_stored_token)

lemma refresh_catch_result:
  "fst (refresh_catch e s) = map (\<lambda>q. (q, Reject e)) (failedQueue s)"
  "isRefreshing (snd (refresh_catch e s)) = False"
  "failedQueue (snd (refresh_catch e s)) = []"
  "localStorage (snd (refresh_catch e s)) = (localStorage s)(''token'' := None, ''user'' := None)"
  "dispatched (snd (refresh_catch e s))
     = dispatched s @ [AuthLogoutEvent, ApiErrorEvent e (Some ''Authentication failed'')]"
  "settlements (snd (refresh_catch e s))
     = settlements s @ map (\<lambda>q. (q, Reject e)) (failedQueue s)"
  "awaiting (snd (refresh_catch e s)) = awaiting s"
  "refreshPosts (snd (refresh_catch e s)) = refreshPosts s"
  "retry (snd (refresh_catch e s)) = retry s"
  "sent (snd (refresh_catch e s)) = sent s"
  "inflight (snd (refresh_catch e s)) = inflight s"
  "settled (snd (refresh_catch e s)) = settled s"
  "wrappers (snd (refresh_catch e s)) = wrappers s"
  by (simp_all add: refresh_catch_def processQueue_def Let_def forEach_settle_reject
      handleApiError_def)

text \<open>
  The failure path is the block of \<^verbatim>\<open>catch\<close> and \<^verbatim>\<open>finally\<close>, then the promise jobs: one
  for every entry of the queue, in the order of the queue, and behind them the one of the
  handler.
\<close>

lemma refresh_failed_eq:
  "refresh_failed c e s =
     microtasks
       (map (\<lambda>q. (q, e, outer_hops (wrappers s q))) (failedQueue s)
          @ [(c, e, handler_hops @ outer_hops (wrappers s c))])
       (snd (refresh_catch e s))"
proof -
  have "refresh_failed c e s =
     microtasks
       (rejection_jobs (fst (refresh_catch e s)) (snd (refresh_catch e s))
          @ [(c, e, handler_hops @ outer_hops (wrappers (snd (refresh_catch e s)) c))])
       (snd (refresh_catch e s))"
    by (simp add: refresh_failed_def split: prod.splits)
  then show ?thesis
    by (simp add: refresh_catch_result rejection_jobs_rejected)
qed

lemma refresh_failed_result:
  "isRefreshing (refresh_failed c e s) = False"
  "failedQueue (refresh_failed c e s) = []"
  "localStorage (refresh_failed c e s) = (localStorage s)(''token'' := None, ''user'' := None)"
  "settlements (refresh_failed c e s)
     = settlements s @ map (\<lambda>q. (q, Reject e)) (failedQueue s)"
  "awaiting (refresh_failed c e s) = awaiting s"
  "refreshPosts (refresh_failed c e s) = refreshPosts s"
  "retry (refresh_failed c e s) = retry s"
  "sent (refresh_failed c e s) = sent s"
  "inflight (refresh_failed c e s) = inflight s"
  by (simp_all add: refresh_failed_eq microtasks_fields refresh_catch_result)

lemma refresh_failed_settled:
  "mset (settled (refresh_failed c e s))
     = mset (settled s) + mset (map (\<lambda>q. (q, Rejected e)) (c # failedQueue s))"
  by (simp add: refresh_failed_eq microtasks_settled refresh_catch_result comp_def)


subsection \<open>The cases of the error handler\<close>

lemma response_error_queued:
  assumes "response err = Some r" and "status r = 401" and "\<not> retry s c" and "isRefreshing s"
  shows "response_error P now c err s
    = s\<lparr>failedQueue := failedQueue s @ [c],
        wrappers := (wrappers s)(c := Suc (wrappers s c))\<rparr>"
  using assms by (simp add: response_error_def)



lemma response_error_terminal:
  assumes "response err = Some r" and "status r \<noteq> 401 \<or> retry s c"
  shows "response_error P now c err s
    = reject_to_application c (AxiosError err) (handleApiError (AxiosError err) None s)"
  using assms by (auto simp: response_error_def)


subsection \<open>One refresh at a time\<close>





subsection \<open>The claims about the refresh\<close>

lemma example_expired_900 [simp]:
  "isTokenExpired JSON_examples 1000000 ''header.eyJleHAiOjkwMH0.signature''"
  using isTokenExpired_numeric [OF example_token_900, of 900 1000000] by simp

lemma example_valid_1600 [simp]:
  "\<not> isTokenExpired JSON_examples 1000000 ''header.eyJleHAiOjE2MDB9.signature''"
  using isTokenExpired_numeric [OF example_token_1600, of 1600 1000000] by simp

lemmas run_simps =
  after_def initial_api_def example_store_def unauthorized_def http_error_def
  apiClient_def request_interceptor_def response_error_def refresh_succeeded_def
  refresh_failed_def refresh_catch_def processQueue_def reject_to_application_def
  handler_hops_def outer_hops_def wrapper_hops_def run_hop_def deliver_rejection_def
  handleApiError_def bearer_def Let_def refresh_requests_outstanding_def

lemmas trace_simps = trace_refreshing_def trace_queued_def example_user_def run_simps

lemma run_snoc:
  "run P s (evs @ [(now, ev)])
     = (case run P s evs of None \<Rightarrow> None | Some s1 \<Rightarrow> step P now s1 ev)"
  by (induction evs arbitrary: s) (auto split: option.splits)

lemma run_after: "run P s evs \<noteq> None \<Longrightarrow> run P s evs = Some (after P s evs)"
  by (auto simp: after_def)

lemma after_step:
  assumes "run P s evs \<noteq> None" and "step P now (after P s evs) ev = Some s'"
  shows "after P s (evs @ [(now, ev)]) = s'"
proof -
  have "run P s evs = Some (after P s evs)"
    using assms(1) by (rule run_after)
  then have "run P s (evs @ [(now, ev)]) = Some s'"
    using assms(2) by (simp add: run_snoc)
  then show ?thesis
    by (simp add: after_def)
qed

lemma queued_state:
  "run JSON_examples (initial_api example_store) trace_queued \<noteq> None"
  "awaiting (after JSON_examples (initial_api example_store) trace_queued) = [1]"
  "failedQueue (after JSON_examples (initial_api example_store) trace_queued) = [2, 3]"
  "isRefreshing (after JSON_examples (initial_api example_store) trace_queued)"
  "sent (after JSON_examples (initial_api example_store) trace_queued)
     = [(1, None), (2, None), (3, None)]"
  "settled (after JSON_examples (initial_api example_store) trace_queued) = []"
  "settlements (after JSON_examples (initial_api example_store) trace_queued) = []"
  "dispatched (after JSON_examples (initial_api example_store) trace_queued) = []"
  "refreshPosts (after JSON_examples (initial_api example_store) trace_queued)
     = [''Bearer header.eyJleHAiOjkwMH0.signature'']"
  by (simp_all add: trace_simps)

lemma failed_state:
  "settled (after JSON_examples (initial_api example_store) trace_failed)
     = [(1, Rejected (AxiosError (http_error 500))),
        (2, Rejected (AxiosError (http_error 500))),
        (3, Rejected (AxiosError (http_error 500)))]"
  "settlements (after JSON_examples (initial_api example_store) trace_failed)
     = [(2, Reject (AxiosError (http_error 500))),
        (3, Reject (AxiosError (http_error 500)))]"
  "dispatched (after JSON_examples (initial_api example_store) trace_failed)
     = [AuthLogoutEvent,
        ApiErrorEvent (AxiosError (http_error 500)) (Some ''Authentication failed''),
        ApiErrorEvent (AxiosError (http_error 500)) (Some ''Token refresh failed''),
        ApiErrorEvent (AxiosError (http_error 500)) (Some ''Token refresh failed'')]"
  by (simp_all add: trace_failed_def trace_simps)

text \<open>
  The order in which the rejections reach the application follows the number of promise
  jobs on the way, not the queue. After \<open>trace_requeued\<close> the queue held call 3 before
  call 4, and \<^verbatim>\<open>reject\<close> was called for them in this order. Call 4, with one wrapper, is
  rejected to the application first; call 2, whose handler had the refresh request but
  stands inside the wrapper of its earlier queueing, comes second; call 3, with two
  wrappers, comes last.
\<close>

lemma requeued_state:
  "run JSON_examples (initial_api example_store) trace_requeued \<noteq> None"
  "map fst (settled (after JSON_examples (initial_api example_store) trace_requeued))
     = [4, 2, 3]"
  "drop 2 (settlements (after JSON_examples (initial_api example_store) trace_requeued))
     = [(3, Reject (AxiosError (http_error 500))), (4, Reject (AxiosError (http_error 500)))]"
  "map fst (sent (after JSON_examples (initial_api example_store) trace_requeued))
     = [1, 2, 3, 1, 2, 3, 4]"
  by (simp_all add: trace_requeued_def trace_simps)

text \<open>
  C2. \<^verbatim>\<open>processQueue\<close> settles the entries of \<^verbatim>\<open>failedQueue\<close> one by one in the order of
  the queue, every entry once, all with the same value (the new token on success, the
  refresh error on failure), and leaves the queue empty, so that a second call settles
  nothing. When the refresh request of the handler of \<open>c\<close> is answered, the step that ends
  the episode makes exactly these settlements. On success the queued calls are then sent
  again in the order of the queue, behind the call of the handler. On failure every
  queued call, and the call of the handler, is rejected to the application once, with the
  refresh error, and nothing is sent. The queue is empty afterwards.
\<close>

theorem processQueue_fifo:
  "map fst (fst (processQueue error tok s)) = failedQueue s
 \<and> map snd (fst (processQueue error tok s))
      = replicate (length (failedQueue s))
          (case error of Some e \<Rightarrow> Reject e | None \<Rightarrow> Resolve tok)
 \<and> snd (processQueue error tok s)
      = s\<lparr>settlements := settlements s @ fst (processQueue error tok s), failedQueue := []\<rparr>
 \<and> fst (processQueue error' tok' (snd (processQueue error tok s))) = []
 \<and> (c \<in> set (awaiting s) \<longrightarrow>
      (\<exists>s'. step P now s (RefreshFulfilled c t u) = Some s'
          \<and> failedQueue s' = []
          \<and> settlements s' = settlements s @ map (\<lambda>q. (q, Resolve (Some t))) (failedQueue s)
          \<and> sent s' = sent s @ (c, Some (''Bearer '' @ t))
                # map (\<lambda>q. (q, Some (''Bearer '' @ t))) (failedQueue s)
          \<and> settled s' = settled s))
 \<and> (c \<in> set (awaiting s) \<longrightarrow>
      (\<exists>s'. step P now s (RefreshRejected c e) = Some s'
          \<and> failedQueue s' = []
          \<and> settlements s' = settlements s @ map (\<lambda>q. (q, Reject e)) (failedQueue s)
          \<and> mset (settled s')
               = mset (settled s) + mset (map (\<lambda>q. (q, Rejected e)) (c # failedQueue s))
          \<and> sent s' = sent s))"
proof -
  have drain: "map fst (fst (processQueue error tok s)) = failedQueue s
    \<and> map snd (fst (processQueue error tok s))
      = replicate (length (failedQueue s))
          (case error of Some e \<Rightarrow> Reject e | None \<Rightarrow> Resolve tok)
    \<and> snd (processQueue error tok s)
      = s\<lparr>settlements := settlements s @ fst (processQueue error tok s), failedQueue := []\<rparr>
    \<and> fst (processQueue error' tok' (snd (processQueue error tok s))) = []"
    by (simp add: processQueue_def forEach_settle_calls forEach_settle_values)
  have ok: "\<exists>s'. step P now s (RefreshFulfilled c t u) = Some s'
          \<and> failedQueue s' = []
          \<and> settlements s' = settlements s @ map (\<lambda>q. (q, Resolve (Some t))) (failedQueue s)
          \<and> sent s' = sent s @ (c, Some (''Bearer '' @ t))
                # map (\<lambda>q. (q, Some (''Bearer '' @ t))) (failedQueue s)
          \<and> settled s' = settled s" if "c \<in> set (awaiting s)"
    using that by (simp add: refresh_succeeded_result)
  have ko: "\<exists>s'. step P now s (RefreshRejected c e) = Some s'
          \<and> failedQueue s' = []
          \<and> settlements s' = settlements s @ map (\<lambda>q. (q, Reject e)) (failedQueue s)
          \<and> mset (settled s')
               = mset (settled s) + mset (map (\<lambda>q. (q, Rejected e)) (c # failedQueue s))
          \<and> sent s' = sent s" if "c \<in> set (awaiting s)"
    using that refresh_failed_settled [of c e "s\<lparr>awaiting := remove1 c (awaiting s)\<rparr>"]
    by (simp add: refresh_failed_result)
  show ?thesis
    using drain ok ko by blast
qed

text \<open>
  The theorem at the state in which the handler of call 1 waits for its refresh request
  and the calls 2 and 3 wait in the queue, for a success and for a failure with status
  500. After the failure the rejection of call 1 reaches the application first: it has
  three promise jobs to go through, those of the calls 2 and 3 have six.
\<close>

theorem processQueue_fifo_witness:
  "1 \<in> set (awaiting (after JSON_examples (initial_api example_store) trace_queued))
 \<and> failedQueue (after JSON_examples (initial_api example_store) trace_queued) = [2, 3]
 \<and> map fst (fst (processQueue None (Some ''header.eyJleHAiOjE2MDB9.signature'')
        (after JSON_examples (initial_api example_store) trace_queued))) = [2, 3]
 \<and> (\<exists>s'. step JSON_examples 1000000
          (after JSON_examples (initial_api example_store) trace_queued)
          (RefreshFulfilled 1 ''header.eyJleHAiOjE2MDB9.signature'' example_user) = Some s'
        \<and> failedQueue s' = []
        \<and> settlements s' = [(2, Resolve (Some ''header.eyJleHAiOjE2MDB9.signature'')),
             (3, Resolve (Some ''header.eyJleHAiOjE2MDB9.signature''))]
        \<and> sent s' = [(1, None), (2, None), (3, None),
             (1, Some ''Bearer header.eyJleHAiOjE2MDB9.signature''),
             (2, Some ''Bearer header.eyJleHAiOjE2MDB9.signature''),
             (3, Some ''Bearer header.eyJleHAiOjE2MDB9.signature'')])
 \<and> (\<exists>s'. step JSON_examples 1000000
          (after JSON_examples (initial_api example_store) trace_queued)
          (RefreshRejected 1 (AxiosError (http_error 500))) = Some s'
        \<and> failedQueue s' = []
        \<and> settlements s' = [(2, Reject (AxiosError (http_error 500))),
             (3, Reject (AxiosError (http_error 500)))]
        \<and> mset (settled s') = {#(1, Rejected (AxiosError (http_error 500))),
             (2, Rejected (AxiosError (http_error 500))),
             (3, Rejected (AxiosError (http_error 500)))#}
        \<and> settled s' = [(1, Rejected (AxiosError (http_error 500))),
             (2, Rejected (AxiosError (http_error 500))),
             (3, Rejected (AxiosError (http_error 500)))])"
proof -
  note t = processQueue_fifo
      [where s = "after JSON_examples (initial_api example_store) trace_queued"
      and c = 1 and P = JSON_examples and now = 1000000
      and error = None and tok = "Some ''header.eyJleHAiOjE2MDB9.signature''"
      and t = "''header.eyJleHAiOjE2MDB9.signature''" and u = example_user
      and e = "AxiosError (http_error 500)"]
  have one: "1 \<in> set (awaiting (after JSON_examples (initial_api example_store) trace_queued))"
    by (simp add: queued_state)
  have order: "map fst (fst (processQueue None (Some ''header.eyJleHAiOjE2MDB9.signature'')
        (after JSON_examples (initial_api example_store) trace_queued))) = [2, 3]"
    using t by (simp add: queued_state)
  have success: "\<exists>s'. step JSON_examples 1000000
          (after JSON_examples (initial_api example_store) trace_queued)
          (RefreshFulfilled 1 ''header.eyJleHAiOjE2MDB9.signature'' example_user) = Some s'
        \<and> failedQueue s' = []
        \<and> settlements s' = [(2, Resolve (Some ''header.eyJleHAiOjE2MDB9.signature'')),
             (3, Resolve (Some ''header.eyJleHAiOjE2MDB9.signature''))]
        \<and> sent s' = [(1, None), (2, None), (3, None),
             (1, Some ''Bearer header.eyJleHAiOjE2MDB9.signature''),
             (2, Some ''Bearer header.eyJleHAiOjE2MDB9.signature''),
             (3, Some ''Bearer header.eyJleHAiOjE2MDB9.signature'')]"
    using t one by (simp add: queued_state)
  from t one obtain s' where s': "step JSON_examples 1000000
          (after JSON_examples (initial_api example_store) trace_queued)
          (RefreshRejected 1 (AxiosError (http_error 500))) = Some s'"
      "failedQueue s' = []"
      "settlements s' = settlements (after JSON_examples (initial_api example_store) trace_queued)
         @ map (\<lambda>q. (q, Reject (AxiosError (http_error 500))))
             (failedQueue (after JSON_examples (initial_api example_store) trace_queued))"
      "mset (settled s')
         = mset (settled (after JSON_examples (initial_api example_store) trace_queued))
           + mset (map (\<lambda>q. (q, Rejected (AxiosError (http_error 500))))
               (1 # failedQueue (after JSON_examples (initial_api example_store) trace_queued)))"
    by blast
  have "after JSON_examples (initial_api example_store) trace_failed = s'"
    unfolding trace_failed_def using queued_state(1) s'(1) by (rule after_step)
  then have "settled s' = [(1, Rejected (AxiosError (http_error 500))),
             (2, Rejected (AxiosError (http_error 500))),
             (3, Rejected (AxiosError (http_error 500)))]"
    using failed_state(1) by simp
  then have failure: "\<exists>s'. step JSON_examples 1000000
          (after JSON_examples (initial_api example_store) trace_queued)
          (RefreshRejected 1 (AxiosError (http_error 500))) = Some s'
        \<and> failedQueue s' = []
        \<and> settlements s' = [(2, Reject (AxiosError (http_error 500))),
             (3, Reject (AxiosError (http_error 500)))]
        \<and> mset (settled s') = {#(1, Rejected (AxiosError (http_error 500))),
             (2, Rejected (AxiosError (http_error 500))),
             (3, Rejected (AxiosError (http_error 500)))#}
        \<and> settled s' = [(1, Rejected (AxiosError (http_error 500))),
             (2, Rejected (AxiosError (http_error 500))),
             (3, Rejected (AxiosError (http_error 500)))]"
    using s' by (simp add: queued_state)
  show ?thesis
    using one order success failure by (simp add: queued_state)
qed









text \<open>
  C3 on the code. The run above is possible; it posts two refresh requests, the second
  one caused by the replay of call 2, and it sends call 2 three times. Call 1, which
  opened the first refresh, carries \<^verbatim>\<open>_retry\<close> after it; call 2 does not until it opens
  the second one.
\<close>

theorem queued_call_second_refresh:
  "run JSON_examples (initial_api example_store) trace_queued_retry \<noteq> None
 \<and> retry (after JSON_examples (initial_api example_store) (take 5 trace_queued_retry)) 1
 \<and> \<not> retry (after JSON_examples (initial_api example_store) (take 5 trace_queued_retry)) 2
 \<and> refreshPosts (after JSON_examples (initial_api example_store) (take 5 trace_queued_retry))
      = [''Bearer header.eyJleHAiOjkwMH0.signature'']
 \<and> refreshPosts (after JSON_examples (initial_api example_store) trace_queued_retry)
      = [''Bearer header.eyJleHAiOjkwMH0.signature'',
         ''Bearer header.eyJleHAiOjE2MDB9.signature'']
 \<and> map fst (sent (after JSON_examples (initial_api example_store) trace_queued_retry))
      = [1, 2, 1, 2, 2]
 \<and> settled (after JSON_examples (initial_api example_store) trace_queued_retry) = []"
  by (simp add: trace_queued_retry_def trace_simps)

text \<open>
  For the call that opens a refresh the claim holds: once \<^verbatim>\<open>_retry\<close> is set, a 401 of the
  call is rejected to the application, no refresh request is posted and nothing is sent.
\<close>

lemma retried_call_fails_for_good:
  assumes "c \<in> set (inflight s)" and "response err = Some r" and "retry s c"
  shows "\<exists>s'. step P now s (ResponseError c err) = Some s'
     \<and> settled s' = settled s @ [(c, Rejected (AxiosError err))]
     \<and> refreshPosts s' = refreshPosts s \<and> sent s' = sent s
     \<and> failedQueue s' = failedQueue s"
  using assms
  by (simp add: response_error_terminal [where r = r] reject_to_application_fields
      handleApiError_def)

text \<open>The queueing branch leaves \<^verbatim>\<open>_retry\<close> as it is, and so does the replay of the queue.\<close>

lemma queued_call_not_marked:
  assumes "response err = Some r" and "status r = 401" and "\<not> retry s c" and "isRefreshing s"
  shows "\<not> retry (response_error P now c err s) c"
    and "\<not> retry (refresh_succeeded P now c' tok u (response_error P now c err s)) c"
  using assms by (simp_all add: response_error_queued [where r = r] refresh_succeeded_result)

end
